theory Spec2Isabelle
  imports Main "HOL-Library.Word"
begin

unbundle bit_operations_syntax

section \<open>Basic types\<close>

text \<open>
  Go's \<^verbatim>\<open>[]byte\<close> is a list of 8-bit words, Go's \<^verbatim>\<open>string\<close> a list of
  \<^typ>\<open>char\<close> (both are byte sequences). The conversions \<^verbatim>\<open>string(b)\<close> and
  \<^verbatim>\<open>[]byte(s)\<close> are written out where the source has them.
\<close>

type_synonym byte = "8 word"
type_synonym bytes = "byte list"

definition string_of_bytes :: "bytes \<Rightarrow> string" where
  "string_of_bytes bs = map (\<lambda>b. char_of (unat b)) bs"

definition bytes_of_string :: "string \<Rightarrow> bytes" where
  "bytes_of_string s = map of_char s"

text \<open>
  Errors are values. A leaf error carries the message of the source; \<open>Wrap\<close> is
  \<^verbatim>\<open>fmt.Errorf("...: %w", err)\<close>; \<open>Panic\<close> is a run-time panic.
\<close>

datatype error = Err string | Wrap string error | Panic string

section \<open>Storage keys (internal/storage/storage.go)\<close>

text \<open>
  \<^verbatim>\<open>BuildKey(prefix, tag)\<close> formats \<^verbatim>\<open>"%s.env"\<close> when the prefix is empty and
  \<^verbatim>\<open>"%s%s.env"\<close> otherwise.
\<close>

definition BuildKey :: "string \<Rightarrow> string \<Rightarrow> string" where
  "BuildKey prefix tag =
     (if prefix = [] then tag @ ''.env'' else prefix @ tag @ ''.env'')"

section \<open>Configuration (internal/config)\<close>

datatype StorageType = StorageTypeS3 | StorageTypeAzure | StorageTypeGCS | StorageTypeOther string

record StorageConfig =
  Type :: StorageType
  Prefix :: string
  Bucket :: string
  Region :: string
  AccountName :: string
  ContainerName :: string
  ProjectID :: string
  BucketName :: string

record EncryptionConfig =
  Enabled :: bool
  Key :: string

record Config =
  Storage :: StorageConfig
  Encryption :: EncryptionConfig
  EnvFile :: string
  EnvFiles :: "string list"

definition GetEnvFiles :: "Config \<Rightarrow> string list" where
  "GetEnvFiles c =
     (if length (EnvFiles c) > 0 then EnvFiles c
      else if EnvFile c \<noteq> [] then [EnvFile c]
      else [''.env''])"

definition Validate :: "Config \<Rightarrow> error option" where
  "Validate c =
     (case Type (Storage c) of
        StorageTypeS3 \<Rightarrow>
          if Bucket (Storage c) = [] then Some (Err ''s3 bucket is required'')
          else if Region (Storage c) = [] then Some (Err ''s3 region is required'')
          else None
      | StorageTypeAzure \<Rightarrow>
          if AccountName (Storage c) = [] then Some (Err ''azure account_name is required'')
          else if ContainerName (Storage c) = [] then Some (Err ''azure container_name is required'')
          else None
      | StorageTypeGCS \<Rightarrow>
          if BucketName (Storage c) = [] then Some (Err ''gcs bucket_name is required'')
          else if ProjectID (Storage c) = [] then Some (Err ''gcs project_id is required'')
          else None
      | StorageTypeOther t \<Rightarrow> Some (Err (''unsupported storage type: '' @ t)))"

section \<open>AES-GCM (crypto/aes and crypto/cipher of the Go library)\<close>

text \<open>
  \<^verbatim>\<open>crypto.go\<close> builds its cipher with \<^verbatim>\<open>aes.NewCipher\<close> and \<^verbatim>\<open>cipher.NewGCM\<close>.
  These are the block cipher of FIPS 197 and the Galois/Counter mode of NIST SP 800-38D
  with a 12-byte nonce, a 16-byte tag and no additional data. A block is a 128-bit word,
  its first byte in the highest bits.
\<close>

type_synonym block = "128 word"

definition block_of :: "bytes \<Rightarrow> block" where
  "block_of bs = foldl (\<lambda>acc b. push_bit 8 acc OR ucast b) 0 (take 16 (bs @ replicate 16 0))"

definition bytes_of_block :: "block \<Rightarrow> bytes" where
  "bytes_of_block w = map (\<lambda>i. ucast (drop_bit (8 * (15 - i)) w)) [0..<16]"

subsection \<open>The block cipher\<close>

text \<open>The S-box, as the 16 by 16 table of FIPS 197: row is the high nibble.\<close>

definition sbox :: "byte list list" where
  "sbox =
     [
      [0x63, 0x7C, 0x77, 0x7B, 0xF2, 0x6B, 0x6F, 0xC5, 0x30, 0x01, 0x67, 0x2B, 0xFE, 0xD7, 0xAB, 0x76],
      [0xCA, 0x82, 0xC9, 0x7D, 0xFA, 0x59, 0x47, 0xF0, 0xAD, 0xD4, 0xA2, 0xAF, 0x9C, 0xA4, 0x72, 0xC0],
      [0xB7, 0xFD, 0x93, 0x26, 0x36, 0x3F, 0xF7, 0xCC, 0x34, 0xA5, 0xE5, 0xF1, 0x71, 0xD8, 0x31, 0x15],
      [0x04, 0xC7, 0x23, 0xC3, 0x18, 0x96, 0x05, 0x9A, 0x07, 0x12, 0x80, 0xE2, 0xEB, 0x27, 0xB2, 0x75],
      [0x09, 0x83, 0x2C, 0x1A, 0x1B, 0x6E, 0x5A, 0xA0, 0x52, 0x3B, 0xD6, 0xB3, 0x29, 0xE3, 0x2F, 0x84],
      [0x53, 0xD1, 0x00, 0xED, 0x20, 0xFC, 0xB1, 0x5B, 0x6A, 0xCB, 0xBE, 0x39, 0x4A, 0x4C, 0x58, 0xCF],
      [0xD0, 0xEF, 0xAA, 0xFB, 0x43, 0x4D, 0x33, 0x85, 0x45, 0xF9, 0x02, 0x7F, 0x50, 0x3C, 0x9F, 0xA8],
      [0x51, 0xA3, 0x40, 0x8F, 0x92, 0x9D, 0x38, 0xF5, 0xBC, 0xB6, 0xDA, 0x21, 0x10, 0xFF, 0xF3, 0xD2],
      [0xCD, 0x0C, 0x13, 0xEC, 0x5F, 0x97, 0x44, 0x17, 0xC4, 0xA7, 0x7E, 0x3D, 0x64, 0x5D, 0x19, 0x73],
      [0x60, 0x81, 0x4F, 0xDC, 0x22, 0x2A, 0x90, 0x88, 0x46, 0xEE, 0xB8, 0x14, 0xDE, 0x5E, 0x0B, 0xDB],
      [0xE0, 0x32, 0x3A, 0x0A, 0x49, 0x06, 0x24, 0x5C, 0xC2, 0xD3, 0xAC, 0x62, 0x91, 0x95, 0xE4, 0x79],
      [0xE7, 0xC8, 0x37, 0x6D, 0x8D, 0xD5, 0x4E, 0xA9, 0x6C, 0x56, 0xF4, 0xEA, 0x65, 0x7A, 0xAE, 0x08],
      [0xBA, 0x78, 0x25, 0x2E, 0x1C, 0xA6, 0xB4, 0xC6, 0xE8, 0xDD, 0x74, 0x1F, 0x4B, 0xBD, 0x8B, 0x8A],
      [0x70, 0x3E, 0xB5, 0x66, 0x48, 0x03, 0xF6, 0x0E, 0x61, 0x35, 0x57, 0xB9, 0x86, 0xC1, 0x1D, 0x9E],
      [0xE1, 0xF8, 0x98, 0x11, 0x69, 0xD9, 0x8E, 0x94, 0x9B, 0x1E, 0x87, 0xE9, 0xCE, 0x55, 0x28, 0xDF],
      [0x8C, 0xA1, 0x89, 0x0D, 0xBF, 0xE6, 0x42, 0x68, 0x41, 0x99, 0x2D, 0x0F, 0xB0, 0x54, 0xBB, 0x16]]"

definition SubByte :: "byte \<Rightarrow> byte" where
  "SubByte b = sbox ! unat (drop_bit 4 b) ! unat (b AND 0x0F)"

definition SubBytes :: "bytes \<Rightarrow> bytes" where
  "SubBytes s = map SubByte s"

text \<open>The state is held column by column: byte \<open>r + 4 * c\<close> is row \<open>r\<close> of column \<open>c\<close>.\<close>

definition ShiftRows :: "bytes \<Rightarrow> bytes" where
  "ShiftRows s = map (\<lambda>i. s ! i) [0, 5, 10, 15, 4, 9, 14, 3, 8, 13, 2, 7, 12, 1, 6, 11]"

definition xtime :: "byte \<Rightarrow> byte" where
  "xtime b = (if bit b 7 then push_bit 1 b XOR 0x1B else push_bit 1 b)"

definition MixColumn :: "byte \<Rightarrow> byte \<Rightarrow> byte \<Rightarrow> byte \<Rightarrow> bytes" where
  "MixColumn a0 a1 a2 a3 =
     [xtime a0 XOR (xtime a1 XOR a1) XOR a2 XOR a3,
      a0 XOR xtime a1 XOR (xtime a2 XOR a2) XOR a3,
      a0 XOR a1 XOR xtime a2 XOR (xtime a3 XOR a3),
      (xtime a0 XOR a0) XOR a1 XOR a2 XOR xtime a3]"

definition MixColumns :: "bytes \<Rightarrow> bytes" where
  "MixColumns s =
     concat (map (\<lambda>c. MixColumn (s ! (4 * c)) (s ! (4 * c + 1)) (s ! (4 * c + 2)) (s ! (4 * c + 3)))
                 [0, 1, 2, 3])"

definition AddRoundKey :: "bytes \<Rightarrow> bytes \<Rightarrow> bytes" where
  "AddRoundKey s k = map2 (XOR) s k"

definition RotWord :: "bytes \<Rightarrow> bytes" where
  "RotWord w = tl w @ [hd w]"

definition Rcon :: "byte list" where
  "Rcon = [0x01, 0x02, 0x04, 0x08, 0x10, 0x20, 0x40, 0x80, 0x1B, 0x36]"

text \<open>
  Key expansion: \<open>Nk\<close> is the number of key words; each further word is made from the
  last word and the word \<open>Nk\<close> places back.
\<close>

primrec expand_words :: "nat \<Rightarrow> nat \<Rightarrow> bytes list \<Rightarrow> bytes list" where
  "expand_words Nk 0 w = w"
| "expand_words Nk (Suc n) w =
     (let i = length w;
          temp = last w;
          temp' = (if i mod Nk = 0
                   then map2 (XOR) (SubBytes (RotWord temp)) [Rcon ! (i div Nk - 1), 0, 0, 0]
                   else if 6 < Nk \<and> i mod Nk = 4 then SubBytes temp
                   else temp)
      in expand_words Nk n (w @ [map2 (XOR) (w ! (i - Nk)) temp']))"

definition KeyExpansion :: "bytes \<Rightarrow> bytes list" where
  "KeyExpansion key =
     (let Nk = length key div 4;
          w = expand_words Nk (4 * (Nk + 7) - Nk) (map (\<lambda>i. take 4 (drop (4 * i) key)) [0..<Nk])
      in map (\<lambda>r. concat (take 4 (drop (4 * r) w))) [0..<Nk + 7])"

text \<open>The cipher on a state, with the round keys of the expanded key.\<close>

definition Cipher :: "bytes list \<Rightarrow> bytes \<Rightarrow> bytes" where
  "Cipher rks input =
     (let s0 = AddRoundKey input (hd rks);
          s1 = fold (\<lambda>rk s. AddRoundKey (MixColumns (ShiftRows (SubBytes s))) rk)
                    (butlast (tl rks)) s0
      in AddRoundKey (ShiftRows (SubBytes s1)) (last rks))"

text \<open>
  \<^verbatim>\<open>aes.NewCipher(key)\<close> accepts keys of 16, 24 and 32 bytes; the cipher it returns
  is the list of round keys. \<^verbatim>\<open>Encrypt\<close> of the cipher maps a block to a block.
\<close>

definition NewCipher :: "bytes \<Rightarrow> error + bytes list" where
  "NewCipher key =
     (if length key = 16 \<or> length key = 24 \<or> length key = 32
      then Inr (KeyExpansion key)
      else Inl (Err ''crypto/aes: invalid key size''))"

definition block_Encrypt :: "bytes list \<Rightarrow> block \<Rightarrow> block" where
  "block_Encrypt rks b = block_of (Cipher rks (bytes_of_block b))"

subsection \<open>Galois/Counter mode\<close>

definition gcm_R :: block where
  "gcm_R = push_bit 120 0xE1"

text \<open>
  Multiplication in the field of GHASH: \<open>x\<close> is read from its highest bit down, \<open>v\<close> is
  halved at each step and reduced by \<open>gcm_R\<close> when its lowest bit falls out.
\<close>

primrec gf_mult_loop :: "nat \<Rightarrow> block \<Rightarrow> block \<Rightarrow> block \<Rightarrow> block" where
  "gf_mult_loop 0 x z v = z"
| "gf_mult_loop (Suc n) x z v =
     gf_mult_loop n x (if bit x n then z XOR v else z)
                      (if bit v 0 then drop_bit 1 v XOR gcm_R else drop_bit 1 v)"

definition gf_mult :: "block \<Rightarrow> block \<Rightarrow> block" where
  "gf_mult x y = gf_mult_loop 128 x 0 y"

text \<open>GHASH over the blocks of the data, the last block padded with zeros.\<close>

function ghash_blocks :: "block \<Rightarrow> block \<Rightarrow> bytes \<Rightarrow> block" where
  "ghash_blocks h y data =
     (if data = [] then y
      else ghash_blocks h (gf_mult (y XOR block_of (take 16 data)) h) (drop 16 data))"
  by pat_completeness auto
termination
  by (relation "measure (\<lambda>(h, y, data). length data)") auto

text \<open>
  The tag: GHASH of the ciphertext, then the length block (no additional data, the bit
  length of the ciphertext as a 64-bit number), masked with the encrypted first counter.
\<close>

definition gcm_auth :: "block \<Rightarrow> block \<Rightarrow> bytes \<Rightarrow> bytes" where
  "gcm_auth h tagMask ciphertext =
     bytes_of_block
       (gf_mult (ghash_blocks h 0 ciphertext
                 XOR ucast ((of_nat (length ciphertext) :: 64 word) * 8)) h
        XOR tagMask)"

definition gcmInc32 :: "block \<Rightarrow> block" where
  "gcmInc32 c = (c AND NOT 0xFFFFFFFF) OR ucast ((ucast c :: 32 word) + 1)"

function counterCrypt :: "(block \<Rightarrow> block) \<Rightarrow> block \<Rightarrow> bytes \<Rightarrow> bytes" where
  "counterCrypt E counter input =
     (if input = [] then []
      else map2 (XOR) (take 16 input) (bytes_of_block (E counter))
           @ counterCrypt E (gcmInc32 counter) (drop 16 input))"
  by pat_completeness auto
termination
  by (relation "measure (\<lambda>(E, counter, input). length input)") auto

definition gcmNonceSize :: nat where "gcmNonceSize = 12"
definition gcmTagSize :: nat where "gcmTagSize = 16"

text \<open>The largest plaintext GCM takes: \<^verbatim>\<open>((1 << 32) - 2) * BlockSize\<close> bytes.\<close>

definition gcmMaxPlaintext :: nat where
  "gcmMaxPlaintext = (2 ^ 32 - 2) * 16"

definition deriveCounter :: "bytes \<Rightarrow> block" where
  "deriveCounter nonce = block_of (nonce @ [0, 0, 0, 1])"

text \<open>
  \<^verbatim>\<open>Seal(dst, nonce, plaintext, nil)\<close> appends ciphertext and tag to \<open>dst\<close>; it panics
  on a nonce of the wrong length and on a plaintext that is too large.
\<close>

definition Seal :: "(block \<Rightarrow> block) \<Rightarrow> bytes \<Rightarrow> bytes \<Rightarrow> bytes \<Rightarrow> error + bytes" where
  "Seal E dst nonce plaintext =
     (if length nonce \<noteq> gcmNonceSize
      then Inl (Panic ''crypto/cipher: incorrect nonce length given to GCM'')
      else if gcmMaxPlaintext < length plaintext
      then Inl (Panic ''crypto/cipher: message too large for GCM'')
      else
        (let counter = deriveCounter nonce;
             tagMask = E counter;
             out = counterCrypt E (gcmInc32 counter) plaintext;
             tag = gcm_auth (E 0) tagMask out
         in Inr (dst @ out @ tag)))"

text \<open>
  \<^verbatim>\<open>Open(nil, nonce, ciphertext, nil)\<close> recomputes the tag over the ciphertext and
  compares it with the last 16 bytes; only when they agree is anything decrypted.
\<close>

definition Open :: "(block \<Rightarrow> block) \<Rightarrow> bytes \<Rightarrow> bytes \<Rightarrow> error + bytes" where
  "Open E nonce ciphertext =
     (if length nonce \<noteq> gcmNonceSize
      then Inl (Panic ''crypto/cipher: incorrect nonce length given to GCM'')
      else if length ciphertext < gcmTagSize
      then Inl (Err ''cipher: message authentication failed'')
      else if gcmMaxPlaintext + gcmTagSize < length ciphertext
      then Inl (Err ''cipher: message authentication failed'')
      else
        (let tag = drop (length ciphertext - gcmTagSize) ciphertext;
             ct = take (length ciphertext - gcmTagSize) ciphertext;
             counter = deriveCounter nonce;
             tagMask = E counter;
             expectedTag = gcm_auth (E 0) tagMask ct
         in if expectedTag \<noteq> tag
            then Inl (Err ''cipher: message authentication failed'')
            else Inr (counterCrypt E (gcmInc32 counter) ct)))"

subsection \<open>Tag and key stream of an envelope\<close>

text \<open>
  For a cipher (its round keys) and a nonce: the tag GCM computes over a ciphertext,
  and the counter-mode transformation of the data. \<open>Seal\<close> and \<open>Open\<close> use both.
\<close>

definition gcm_tag :: "bytes list \<Rightarrow> bytes \<Rightarrow> bytes \<Rightarrow> bytes" where
  "gcm_tag block nonce ct =
     gcm_auth (block_Encrypt block 0) (block_Encrypt block (deriveCounter nonce)) ct"

definition gcm_stream :: "bytes list \<Rightarrow> bytes \<Rightarrow> bytes \<Rightarrow> bytes" where
  "gcm_stream block nonce data =
     counterCrypt (block_Encrypt block) (gcmInc32 (deriveCounter nonce)) data"


section \<open>Cryptor (internal/crypto/crypto.go)\<close>

definition KeySize :: nat where "KeySize = 32"

text \<open>
  The random source is the list of bytes it will deliver. \<^verbatim>\<open>io.ReadFull\<close> takes the
  next \<open>n\<close> bytes, or fails when the source cannot deliver them.
\<close>

definition ReadFull :: "bytes \<Rightarrow> nat \<Rightarrow> (error + bytes) \<times> bytes" where
  "ReadFull rnd n =
     (if length rnd < n then (Inl (Err ''unexpected EOF''), [])
      else (Inr (take n rnd), drop n rnd))"

text \<open>\<open>Encrypt\<close> returns its result and the random source left after the call.\<close>

definition Encrypt :: "bytes \<Rightarrow> bytes \<Rightarrow> bytes \<Rightarrow> (error + bytes) \<times> bytes" where
  "Encrypt plaintext key rnd =
     (case NewCipher key of
        Inl e \<Rightarrow> (Inl (Wrap ''failed to create cipher'' e), rnd)
      | Inr block \<Rightarrow>
          (case ReadFull rnd gcmNonceSize of
             (Inl e, rnd') \<Rightarrow> (Inl (Wrap ''failed to generate nonce'' e), rnd')
           | (Inr nonce, rnd') \<Rightarrow> (Seal (block_Encrypt block) nonce nonce plaintext, rnd')))"

definition Decrypt :: "bytes \<Rightarrow> bytes \<Rightarrow> error + bytes" where
  "Decrypt ciphertext key =
     (case NewCipher key of
        Inl e \<Rightarrow> Inl (Wrap ''failed to create cipher'' e)
      | Inr block \<Rightarrow>
          if length ciphertext < gcmNonceSize then Inl (Err ''ciphertext too short'')
          else
            (case Open (block_Encrypt block) (take gcmNonceSize ciphertext)
                       (drop gcmNonceSize ciphertext) of
               Inl e \<Rightarrow> Inl (Wrap ''failed to decrypt'' e)
             | Inr plaintext \<Rightarrow> Inr plaintext))"

subsection \<open>Key encoding\<close>

text \<open>\<^verbatim>\<open>hex.DecodeString\<close>: two hex digits of either case per byte.\<close>

definition fromHexChar :: "char \<Rightarrow> byte option" where
  "fromHexChar c =
     (let n = (of_char c :: nat) in
      if 48 \<le> n \<and> n \<le> 57 then Some (of_nat (n - 48))
      else if 97 \<le> n \<and> n \<le> 102 then Some (of_nat (n - 87))
      else if 65 \<le> n \<and> n \<le> 70 then Some (of_nat (n - 55))
      else None)"

fun hex_DecodeString :: "string \<Rightarrow> error + bytes" where
  "hex_DecodeString [] = Inr []"
| "hex_DecodeString [p] =
     (case fromHexChar p of
        None \<Rightarrow> Inl (Err ''encoding/hex: invalid byte'')
      | Some a \<Rightarrow> Inl (Err ''encoding/hex: odd length hex string''))"
| "hex_DecodeString (p # q # rest) =
     (case fromHexChar p of
        None \<Rightarrow> Inl (Err ''encoding/hex: invalid byte'')
      | Some a \<Rightarrow>
          (case fromHexChar q of
             None \<Rightarrow> Inl (Err ''encoding/hex: invalid byte'')
           | Some b \<Rightarrow>
               (case hex_DecodeString rest of
                  Inl e \<Rightarrow> Inl e
                | Inr bs \<Rightarrow> Inr ((push_bit 4 a OR b) # bs))))"

definition DecodeKeyFromString :: "string \<Rightarrow> error + bytes" where
  "DecodeKeyFromString keyHex =
     (case hex_DecodeString keyHex of
        Inl e \<Rightarrow> Inl (Wrap ''failed to decode encryption key'' e)
      | Inr key \<Rightarrow>
          if length key \<noteq> KeySize then Inl (Err ''invalid key size'') else Inr key)"

section \<open>Archiver (internal/archive/archive.go)\<close>

text \<open>\<^verbatim>\<open>os.FileMode\<close> is a 32-bit unsigned number.\<close>

record FileEntry =
  Path :: string
  Data :: bytes
  Mode :: "32 word"

text \<open>The fields of \<^verbatim>\<open>tar.Header\<close> that the archiver sets and reads; both are \<^verbatim>\<open>int64\<close>.\<close>

record tar_Header =
  hdr_Name :: string
  hdr_Mode :: "64 word"
  hdr_Size :: "64 word"

text \<open>
  The file system: a path that is present can be read and has a mode.
\<close>

record os_file =
  contents :: bytes
  file_mode :: "32 word"

type_synonym filesystem = "string \<rightharpoonup> os_file"

definition ReadFile :: "filesystem \<Rightarrow> string \<Rightarrow> error + bytes" where
  "ReadFile fs name =
     (case fs name of None \<Rightarrow> Inl (Err ''no such file or directory'') | Some f \<Rightarrow> Inr (contents f))"

definition Stat :: "filesystem \<Rightarrow> string \<Rightarrow> error + 32 word" where
  "Stat fs name =
     (case fs name of None \<Rightarrow> Inl (Err ''no such file or directory'') | Some f \<Rightarrow> Inr (file_mode f))"

text \<open>
  The container is written by \<^verbatim>\<open>archive/tar\<close> into \<^verbatim>\<open>compress/gzip\<close> and read back
  by their readers. Both belong to the Go library; they are a parameter here:
  \<open>header_ok\<close> says which headers \<^verbatim>\<open>WriteHeader\<close> can encode, \<open>encode\<close> is the byte
  string that closing the writers leaves in the buffer for the records written, and
  \<open>decode\<close> is what the readers deliver, an error or the records with the bytes of
  each. The state of a writer is the list of records written so far.
\<close>

record tar_lib =
  header_ok :: "tar_Header \<Rightarrow> bool"
  encode :: "(tar_Header \<times> bytes) list \<Rightarrow> bytes"
  decode :: "bytes \<Rightarrow> error + (tar_Header \<times> bytes) list"

type_synonym tar_writer = "(tar_Header \<times> bytes) list"

definition missing_bytes :: "tar_writer \<Rightarrow> bool" where
  "missing_bytes w = (w \<noteq> [] \<and> int (length (snd (last w))) < sint (hdr_Size (fst (last w))))"

definition WriteHeader :: "tar_lib \<Rightarrow> tar_writer \<Rightarrow> tar_Header \<Rightarrow> error + tar_writer" where
  "WriteHeader lib w hdr =
     (if missing_bytes w then Inl (Err ''archive/tar: missed writing bytes'')
      else if \<not> header_ok lib hdr then Inl (Err ''archive/tar: cannot encode header'')
      else Inr (w @ [(hdr, [])]))"

definition tar_Write :: "tar_writer \<Rightarrow> bytes \<Rightarrow> error + tar_writer" where
  "tar_Write w b =
     (if w = [] then
        (if b = [] then Inr w else Inl (Err ''archive/tar: write too long''))
      else if sint (hdr_Size (fst (last w))) < int (length (snd (last w)) + length b)
      then Inl (Err ''archive/tar: write too long'')
      else Inr (butlast w @ [(fst (last w), snd (last w) @ b)]))"

definition tar_Close :: "tar_lib \<Rightarrow> tar_writer \<Rightarrow> error + bytes" where
  "tar_Close lib w =
     (if missing_bytes w then Inl (Err ''archive/tar: missed writing bytes'')
      else Inr (encode lib w))"

text \<open>The loop of \<open>Create\<close> over the files, with the writer as state.\<close>

fun create_loop :: "tar_lib \<Rightarrow> filesystem \<Rightarrow> string list \<Rightarrow> tar_writer \<Rightarrow> error + tar_writer" where
  "create_loop lib fs [] w = Inr w"
| "create_loop lib fs (name # names) w =
     (case ReadFile fs name of
        Inl e \<Rightarrow> Inl (Wrap (''failed to read file '' @ name) e)
      | Inr data \<Rightarrow>
          (case Stat fs name of
             Inl e \<Rightarrow> Inl (Wrap (''failed to stat file '' @ name) e)
           | Inr mode \<Rightarrow>
               (let header = \<lparr>hdr_Name = name, hdr_Mode = ucast mode,
                               hdr_Size = of_nat (length data)\<rparr> in
                case WriteHeader lib w header of
                  Inl e \<Rightarrow> Inl (Wrap (''failed to write tar header for '' @ name) e)
                | Inr w' \<Rightarrow>
                    (case tar_Write w' data of
                       Inl e \<Rightarrow> Inl (Wrap (''failed to write file data for '' @ name) e)
                     | Inr w'' \<Rightarrow> create_loop lib fs names w''))))"

definition Create :: "tar_lib \<Rightarrow> filesystem \<Rightarrow> string list \<Rightarrow> error + bytes" where
  "Create lib fs files =
     (case create_loop lib fs files [] of
        Inl e \<Rightarrow> Inl e
      | Inr w \<Rightarrow>
          (case tar_Close lib w of
             Inl e \<Rightarrow> Inl (Wrap ''failed to close tar writer'' e)
           | Inr blob \<Rightarrow> Inr blob))"

text \<open>
  The loop of \<open>Extract\<close> over the records the reader delivers: a slice of
  \<^verbatim>\<open>header.Size\<close> bytes is made (a negative size panics) and filled from the record.
\<close>

fun extract_loop :: "(tar_Header \<times> bytes) list \<Rightarrow> FileEntry list \<Rightarrow> error + FileEntry list" where
  "extract_loop [] entries = Inr entries"
| "extract_loop ((header, avail) # rest) entries =
     (if sint (hdr_Size header) < 0 then Inl (Panic ''makeslice: len out of range'')
      else if length avail < unat (hdr_Size header)
      then Inl (Wrap (''failed to read file data for '' @ hdr_Name header) (Err ''unexpected EOF''))
      else extract_loop rest
             (entries @ [\<lparr>Path = hdr_Name header,
                           Data = take (unat (hdr_Size header)) avail,
                           Mode = ucast (hdr_Mode header)\<rparr>]))"

definition Extract :: "tar_lib \<Rightarrow> bytes \<Rightarrow> error + FileEntry list" where
  "Extract lib archiveData =
     (case decode lib archiveData of
        Inl e \<Rightarrow> Inl (Wrap ''failed to read tar entry'' e)
      | Inr records \<Rightarrow> extract_loop records [])"

subsection \<open>The container\<close>

text \<open>
  Modelled from the spec: the container format. The packages \<^verbatim>\<open>archive/tar\<close> and
  \<^verbatim>\<open>compress/gzip\<close> of the Go library, which write and read the container, are not
  part of the repository. Section 6 of the specification asks for a sequentially
  readable container of (path, permission bits, size, content) records and for no
  particular format. Here a record is written as the path, each of its bytes after a
  byte 1 and the whole closed by a byte 0, then mode and size in eight bytes each,
  highest byte first, then the content. Every header is accepted. Compression, which
  is lossless, is left out.
\<close>

primrec be_bytes :: "nat \<Rightarrow> nat \<Rightarrow> bytes" where
  "be_bytes 0 x = []"
| "be_bytes (Suc k) x = be_bytes k (x div 256) @ [of_nat (x mod 256)]"

definition be_value :: "bytes \<Rightarrow> nat" where
  "be_value bs = foldl (\<lambda>a b. 256 * a + unat b) 0 bs"

definition enc_name :: "string \<Rightarrow> bytes" where
  "enc_name s = concat (map (\<lambda>c. [1, of_char c]) s) @ [0]"

fun dec_name :: "bytes \<Rightarrow> (string \<times> bytes) option" where
  "dec_name [] = None"
| "dec_name [t] = (if t = 0 then Some ([], []) else None)"
| "dec_name (t # b # rest) =
     (if t = 0 then Some ([], b # rest)
      else
        (case dec_name rest of
           None \<Rightarrow> None
         | Some (s, r) \<Rightarrow> Some (char_of (unat b) # s, r)))"

definition plain_record :: "tar_Header \<times> bytes \<Rightarrow> bytes" where
  "plain_record r =
     enc_name (hdr_Name (fst r))
     @ be_bytes 8 (unat (hdr_Mode (fst r))) @ be_bytes 8 (unat (hdr_Size (fst r))) @ snd r"

function plain_decode :: "bytes \<Rightarrow> error + (tar_Header \<times> bytes) list" where
  "plain_decode bs =
     (if bs = [] then Inr []
      else
        (case dec_name bs of
           None \<Rightarrow> Inl (Err ''unexpected EOF'')
         | Some (name, rest) \<Rightarrow>
             (let size = be_value (take 8 (drop 8 rest));
                  body = drop 16 rest
              in if length rest < 16 \<or> length body < size then Inl (Err ''unexpected EOF'')
                 else
                   (case plain_decode (drop size body) of
                      Inl e \<Rightarrow> Inl e
                    | Inr rs \<Rightarrow>
                        Inr ((\<lparr>hdr_Name = name,
                                hdr_Mode = of_nat (be_value (take 8 rest)),
                                hdr_Size = of_nat size\<rparr>, take size body) # rs)))))"
  by pat_completeness auto
termination
proof (relation "measure length")
  have shorter: "length rest < length bs" if "dec_name bs = Some (name, rest)"
    for bs name rest
    using that
  proof (induction bs arbitrary: name rest rule: dec_name.induct)
    case 1
    then show ?case by simp
  next
    case (2 t)
    then show ?case by (simp split: if_splits)
  next
    case (3 t b rest')
    then show ?case by (fastforce split: if_splits option.splits)
  qed
  fix bs :: bytes and x2 x y xa xb
  assume "bs \<noteq> []" and "dec_name bs = Some x2" and "(x, y) = x2"
    and "xa = be_value (take 8 (drop 8 y))" and "xb = drop 16 y"
    and "\<not> (length y < 16 \<or> length xb < xa)"
  then have "length y < length bs" using shorter [of bs x y] by simp
  then show "(drop xa xb, bs) \<in> measure length"
    using \<open>xb = drop 16 y\<close> by simp
qed simp

definition plain_container :: tar_lib where
  "plain_container =
     \<lparr>header_ok = (\<lambda>h. True),
      encode = (\<lambda>rs. concat (map plain_record rs)),
      decode = plain_decode\<rparr>"

text \<open>Three files on disk, their archive in the plain container, and a configuration naming them.\<close>

definition three_files :: filesystem where
  "three_files =
     [''a.env'' \<mapsto> \<lparr>contents = [65, 61, 49, 10, 66, 61, 50], file_mode = 0x180\<rparr>,
      ''b.json'' \<mapsto> \<lparr>contents = [123, 125], file_mode = 0x1a4\<rparr>,
      ''.env.local'' \<mapsto> \<lparr>contents = [65, 61, 51], file_mode = 0x1a4\<rparr>]"

definition three_paths :: "string list" where
  "three_paths = [''a.env'', ''b.json'', ''.env.local'']"

definition three_blob :: bytes where
  "three_blob =
     [1, 97, 1, 46, 1, 101, 1, 110, 1, 118, 0, 0, 0, 0, 0, 0, 0, 1, 128, 0, 0, 0, 0, 0,
      0, 0, 7, 65, 61, 49, 10, 66, 61, 50, 1, 98, 1, 46, 1, 106, 1, 115, 1, 111, 1, 110,
      0, 0, 0, 0, 0, 0, 0, 1, 164, 0, 0, 0, 0, 0, 0, 0, 2, 123, 125, 1, 46, 1, 101, 1,
      110, 1, 118, 1, 46, 1, 108, 1, 111, 1, 99, 1, 97, 1, 108, 0, 0, 0, 0, 0, 0, 0, 1,
      164, 0, 0, 0, 0, 0, 0, 0, 3, 65, 61, 51]"

section \<open>Env parser and differ (package cli)\<close>

type_synonym env_map = "string \<rightharpoonup> string"

subsection \<open>strings.TrimSpace\<close>

text \<open>
  \<^verbatim>\<open>strings.TrimSpace\<close> removes leading and trailing runes for which
  \<^verbatim>\<open>unicode.IsSpace\<close> holds. On a byte string these are the six ASCII characters
  tab, line feed, vertical tab, form feed, carriage return and space, and the UTF-8
  encodings of U+0085, U+00A0, U+1680, U+2000 to U+200A, U+2028, U+2029, U+202F, U+205F
  and U+3000. An invalid or truncated sequence decodes to the error rune of width one,
  which is no space, so trimming stops there.
\<close>

definition space_encodings :: "string list" where
  "space_encodings =
     [[CHR 0x09], [CHR 0x0A], [CHR 0x0B], [CHR 0x0C], [CHR 0x0D], [CHR 0x20],
      [CHR 0xC2, CHR 0x85], [CHR 0xC2, CHR 0xA0],
      [CHR 0xE1, CHR 0x9A, CHR 0x80],
      [CHR 0xE2, CHR 0x80, CHR 0x80], [CHR 0xE2, CHR 0x80, CHR 0x81],
      [CHR 0xE2, CHR 0x80, CHR 0x82], [CHR 0xE2, CHR 0x80, CHR 0x83],
      [CHR 0xE2, CHR 0x80, CHR 0x84], [CHR 0xE2, CHR 0x80, CHR 0x85],
      [CHR 0xE2, CHR 0x80, CHR 0x86], [CHR 0xE2, CHR 0x80, CHR 0x87],
      [CHR 0xE2, CHR 0x80, CHR 0x88], [CHR 0xE2, CHR 0x80, CHR 0x89],
      [CHR 0xE2, CHR 0x80, CHR 0x8A],
      [CHR 0xE2, CHR 0x80, CHR 0xA8], [CHR 0xE2, CHR 0x80, CHR 0xA9],
      [CHR 0xE2, CHR 0x80, CHR 0xAF], [CHR 0xE2, CHR 0x81, CHR 0x9F],
      [CHR 0xE3, CHR 0x80, CHR 0x80]]"

definition leading_space :: "string \<Rightarrow> string option" where
  "leading_space s = find (\<lambda>e. take (length e) s = e) space_encodings"

definition trailing_space :: "string \<Rightarrow> string option" where
  "trailing_space s =
     find (\<lambda>e. length e \<le> length s \<and> drop (length s - length e) s = e) space_encodings"

function TrimLeft :: "string \<Rightarrow> string" where
  "TrimLeft s =
     (case leading_space s of
        None \<Rightarrow> s
      | Some e \<Rightarrow> TrimLeft (drop (length e) s))"
  by pat_completeness auto
termination
proof (relation "measure length")
  fix s e
  assume "leading_space s = Some e"
  then have "take (length e) s = e" and "e \<in> set space_encodings"
    by (auto simp: leading_space_def find_Some_iff)
  moreover have "[] \<notin> set space_encodings"
    by (simp add: space_encodings_def)
  ultimately have "e \<noteq> []" and "s \<noteq> []" by auto
  then show "(drop (length e) s, s) \<in> measure length" by simp
qed simp

function TrimRight :: "string \<Rightarrow> string" where
  "TrimRight s =
     (case trailing_space s of
        None \<Rightarrow> s
      | Some e \<Rightarrow> TrimRight (take (length s - length e) s))"
  by pat_completeness auto
termination
proof (relation "measure length")
  fix s e
  assume "trailing_space s = Some e"
  then have "length e \<le> length s" and "e \<in> set space_encodings"
    by (auto simp: trailing_space_def find_Some_iff)
  moreover have "[] \<notin> set space_encodings"
    by (simp add: space_encodings_def)
  ultimately have "length e \<le> length s" and "0 < length e" by auto
  then have "length s - length e < length s" by arith
  then show "(take (length s - length e) s, s) \<in> measure length" by simp
qed simp

definition TrimSpace :: "string \<Rightarrow> string" where
  "TrimSpace s = TrimRight (TrimLeft s)"

subsection \<open>bufio.Scanner with the default line splitter\<close>

text \<open>
  \<^verbatim>\<open>bufio.NewScanner\<close> splits with \<^verbatim>\<open>ScanLines\<close>: a token ends at the next line
  feed, one trailing carriage return is dropped, and a last line without line feed is a
  token when it is not empty. The scanner's buffer grows to at most
  \<^verbatim>\<open>MaxScanTokenSize\<close> bytes; when that many bytes hold no line feed, \<^verbatim>\<open>Scan\<close>
  stops and \<^verbatim>\<open>Err()\<close> is \<^verbatim>\<open>ErrTooLong\<close>. \<open>Scan\<close> takes the unread input and returns
  the token with the input left after it.
\<close>

definition MaxScanTokenSize :: nat where
  "MaxScanTokenSize = 64 * 1024"

datatype scan_step = Token bytes bytes | ScanDone | ScanTooLong

definition dropCR :: "bytes \<Rightarrow> bytes" where
  "dropCR data = (if data \<noteq> [] \<and> last data = 13 then butlast data else data)"

definition Scan :: "bytes \<Rightarrow> scan_step" where
  "Scan rest =
     (if rest = [] then ScanDone
      else if 10 \<in> set (take MaxScanTokenSize rest)
        then (let i = length (takeWhile (\<lambda>b. b \<noteq> 10) rest)
              in Token (dropCR (take i rest)) (drop (i + 1) rest))
      else if MaxScanTokenSize \<le> length rest then ScanTooLong
      else Token (dropCR rest) [])"

subsection \<open>parseEnvFile\<close>

text \<open>\<^verbatim>\<open>strings.SplitN(line, "=", 2)\<close>: one part without separator, else two.\<close>

definition SplitN2 :: "string \<Rightarrow> string list" where
  "SplitN2 line =
     (if CHR ''='' \<in> set line
      then [takeWhile (\<lambda>c. c \<noteq> CHR ''='') line, tl (dropWhile (\<lambda>c. c \<noteq> CHR ''='') line)]
      else [line])"

definition HasPrefix :: "string \<Rightarrow> string \<Rightarrow> bool" where
  "HasPrefix s pre = (take (length pre) s = pre)"

definition HasSuffix :: "string \<Rightarrow> string \<Rightarrow> bool" where
  "HasSuffix s suf = (length suf \<le> length s \<and> drop (length s - length suf) s = suf)"

text \<open>The body of the scan loop, for one token.\<close>

definition parse_line :: "bytes \<Rightarrow> env_map \<Rightarrow> env_map" where
  "parse_line token envMap =
     (let line = TrimSpace (string_of_bytes token) in
      if line = [] \<or> HasPrefix line ''#'' then envMap
      else
        (let parts = SplitN2 line in
         if length parts = 2
         then envMap(TrimSpace (parts ! 0) \<mapsto> TrimSpace (parts ! 1))
         else envMap))"

function scan_loop :: "bytes \<Rightarrow> env_map \<Rightarrow> error + env_map" where
  "scan_loop rest envMap =
     (case Scan rest of
        ScanDone \<Rightarrow> Inr envMap
      | ScanTooLong \<Rightarrow> Inl (Err ''bufio.Scanner: token too long'')
      | Token tok rest' \<Rightarrow> scan_loop rest' (parse_line tok envMap))"
  by pat_completeness auto
termination
proof (relation "measure (\<lambda>(rest, envMap). length rest)")
  fix rest :: bytes and envMap :: env_map and tok rest'
  assume "Scan rest = Token tok rest'"
  then have "rest \<noteq> []" and "length rest' < length rest"
    by (auto simp: Scan_def Let_def split: if_splits)
  then show "((rest', parse_line tok envMap), (rest, envMap))
             \<in> measure (\<lambda>(rest, envMap). length rest)"
    by simp
qed simp

definition parseEnvFile :: "bytes \<Rightarrow> error + env_map" where
  "parseEnvFile data =
     (case scan_loop data Map.empty of
        Inl e \<Rightarrow> Inl (Wrap ''failed to parse env file'' e)
      | Inr envMap \<Rightarrow> Inr envMap)"

subsection \<open>The parser as the specification describes it\<close>

text \<open>
  The lines of a file: the pieces between line feeds, a last piece without line feed
  counting when it is not empty.
\<close>

function raw_lines :: "bytes \<Rightarrow> bytes list" where
  "raw_lines data =
     (if data = [] then []
      else takeWhile (\<lambda>b. b \<noteq> 10) data
           # raw_lines (drop (Suc (length (takeWhile (\<lambda>b. b \<noteq> 10) data))) data))"
  by pat_completeness auto
termination
  by (relation "measure length") auto

text \<open>
  The binding a line contributes: none when the trimmed line is blank or starts with
  \<^verbatim>\<open>#\<close>, none when it has no \<^verbatim>\<open>=\<close>, else the text before the first \<^verbatim>\<open>=\<close> and the
  text after it, both trimmed.
\<close>

definition line_binding :: "bytes \<Rightarrow> (string \<times> string) option" where
  "line_binding l =
     (let t = TrimSpace (string_of_bytes l) in
      if t = [] then None
      else if hd t = CHR ''#'' then None
      else if CHR ''='' \<notin> set t then None
      else Some (TrimSpace (takeWhile (\<lambda>c. c \<noteq> CHR ''='') t),
                 TrimSpace (drop (Suc (length (takeWhile (\<lambda>c. c \<noteq> CHR ''='') t))) t)))"

text \<open>The map of a list of lines: bindings are entered in order, later ones win.\<close>

definition env_of_lines :: "bytes list \<Rightarrow> env_map" where
  "env_of_lines ls =
     fold (\<lambda>l m. case line_binding l of None \<Rightarrow> m | Some (k, v) \<Rightarrow> m(k \<mapsto> v)) ls Map.empty"

text \<open>A small env file, used to run the parser.\<close>

definition sample_env :: bytes where
  "sample_env = bytes_of_string (''# note'' @ [CHR 0x0A] @ ''  A = 1 '' @ [CHR 0x0D, CHR 0x0A]
                   @ ''B=x=y'' @ [CHR 0x0A] @ '' #C=3'' @ [CHR 0x0A] @ ''noeq'')"

subsection \<open>diffEnvMaps\<close>

text \<open>
  A \<^verbatim>\<open>range\<close> over a Go map visits each of its keys once, in an order the runtime
  chooses. The order is the list \<open>ks\<close>; keys that are not in the map are not visited.
\<close>

definition range_map :: "('k \<rightharpoonup> 'v) \<Rightarrow> 'k list \<Rightarrow> ('k \<times> 'v) list" where
  "range_map m ks = List.map_filter (\<lambda>k. map_option (Pair k) (m k)) ks"

text \<open>First loop: added and changed keys.\<close>

fun diff_new :: "env_map \<Rightarrow> (string \<times> string) list \<Rightarrow> env_map \<times> env_map \<Rightarrow> env_map \<times> env_map" where
  "diff_new oldMap [] (added, changed) = (added, changed)"
| "diff_new oldMap ((key, newValue) # kvs) (added, changed) =
     (case oldMap key of
        Some oldValue \<Rightarrow>
          if oldValue \<noteq> newValue
          then diff_new oldMap kvs (added, changed(key \<mapsto> oldValue @ '' -> '' @ newValue))
          else diff_new oldMap kvs (added, changed)
      | None \<Rightarrow> diff_new oldMap kvs (added(key \<mapsto> newValue), changed))"

text \<open>Second loop: removed keys.\<close>

fun diff_old :: "env_map \<Rightarrow> (string \<times> string) list \<Rightarrow> env_map \<Rightarrow> env_map" where
  "diff_old newMap [] removed = removed"
| "diff_old newMap ((key, v) # kvs) removed =
     (case newMap key of
        None \<Rightarrow> diff_old newMap kvs (removed(key \<mapsto> v))
      | Some _ \<Rightarrow> diff_old newMap kvs removed)"

text \<open>
  \<open>diffEnvMaps order_new order_old oldMap newMap\<close> returns (added, removed, changed);
  the two orders are those of the two \<^verbatim>\<open>range\<close> loops.
\<close>

definition diffEnvMaps ::
  "string list \<Rightarrow> string list \<Rightarrow> env_map \<Rightarrow> env_map \<Rightarrow> env_map \<times> env_map \<times> env_map" where
  "diffEnvMaps order_new order_old oldMap newMap =
     (let (added, changed) = diff_new oldMap (range_map newMap order_new) (Map.empty, Map.empty);
          removed = diff_old newMap (range_map oldMap order_old) Map.empty
      in (added, removed, changed))"

section \<open>Sync pipeline (package cli)\<close>

subsection \<open>Storage\<close>

text \<open>
  The \<^verbatim>\<open>Storage\<close> interface, for a backend with states of type \<open>'s\<close>: the methods
  that push, pull and diff call. \<open>Upload\<close> returns the error, if any, and the state
  after the call.
\<close>

record 's storage =
  Upload :: "'s \<Rightarrow> string \<Rightarrow> bytes \<Rightarrow> error option \<times> 's"
  Download :: "'s \<Rightarrow> string \<Rightarrow> error + bytes"
  Exists :: "'s \<Rightarrow> string \<Rightarrow> error + bool"

text \<open>\<^verbatim>\<open>MockStorage\<close>: a map from storage keys to blobs, and an error to inject.\<close>

record MockStorage =
  mock_data :: "string \<rightharpoonup> bytes"
  mock_Error :: "error option"

definition NewMockStorage :: MockStorage where
  "NewMockStorage = \<lparr>mock_data = Map.empty, mock_Error = None\<rparr>"

definition mock_Upload :: "MockStorage \<Rightarrow> string \<Rightarrow> bytes \<Rightarrow> error option \<times> MockStorage" where
  "mock_Upload m tag b =
     (case mock_Error m of
        Some e \<Rightarrow> (Some e, m)
      | None \<Rightarrow> (None, m\<lparr>mock_data := (mock_data m)(BuildKey [] tag \<mapsto> b)\<rparr>))"

definition mock_Download :: "MockStorage \<Rightarrow> string \<Rightarrow> error + bytes" where
  "mock_Download m tag =
     (case mock_Error m of
        Some e \<Rightarrow> Inl e
      | None \<Rightarrow>
          (case mock_data m (BuildKey [] tag) of
             None \<Rightarrow> Inl (Err (''tag '' @ tag @ '' not found''))
           | Some b \<Rightarrow> Inr b))"

definition mock_Exists :: "MockStorage \<Rightarrow> string \<Rightarrow> error + bool" where
  "mock_Exists m tag =
     (case mock_Error m of
        Some e \<Rightarrow> Inl e
      | None \<Rightarrow> Inr (mock_data m (BuildKey [] tag) \<noteq> None))"

definition mock_storage :: "MockStorage storage" where
  "mock_storage = \<lparr>Upload = mock_Upload, Download = mock_Download, Exists = mock_Exists\<rparr>"

subsection \<open>Loading, preparing and processing data\<close>

text \<open>The first loop of \<open>loadEnvFiles\<close>: every file must exist.\<close>

fun check_files :: "filesystem \<Rightarrow> string list \<Rightarrow> error option" where
  "check_files fs [] = None"
| "check_files fs (name # names) =
     (if fs name = None then Some (Err (''file not found: '' @ name)) else check_files fs names)"

definition loadEnvFiles :: "tar_lib \<Rightarrow> filesystem \<Rightarrow> Config \<Rightarrow> error + bytes" where
  "loadEnvFiles lib fs cfg =
     (let files = GetEnvFiles cfg in
      case check_files fs files of
        Some e \<Rightarrow> Inl e
      | None \<Rightarrow>
          if length files = 1 then
            (case ReadFile fs (files ! 0) of
               Inl e \<Rightarrow> Inl (Wrap (''failed to read file '' @ files ! 0) e)
             | Inr data \<Rightarrow> Inr data)
          else
            (case Create lib fs files of
               Inl e \<Rightarrow> Inl (Wrap ''failed to create archive'' e)
             | Inr archiveData \<Rightarrow> Inr archiveData))"

text \<open>\<open>prepareData\<close> returns its result and the random source left.\<close>

definition prepareData :: "bytes \<Rightarrow> Config \<Rightarrow> bytes \<Rightarrow> (error + bytes) \<times> bytes" where
  "prepareData data cfg rnd =
     (if \<not> Enabled (Encryption cfg) then (Inr data, rnd)
      else if Key (Encryption cfg) = []
      then (Inl (Err ''encryption is enabled but no key is configured''), rnd)
      else
        (case DecodeKeyFromString (Key (Encryption cfg)) of
           Inl e \<Rightarrow> (Inl (Wrap ''failed to decode encryption key'' e), rnd)
         | Inr key \<Rightarrow>
             (case Encrypt data key rnd of
                (Inl e, rnd') \<Rightarrow> (Inl (Wrap ''failed to encrypt data'' e), rnd')
              | (Inr encrypted, rnd') \<Rightarrow> (Inr encrypted, rnd'))))"

definition processData :: "bytes \<Rightarrow> Config \<Rightarrow> error + bytes" where
  "processData data cfg =
     (if \<not> Enabled (Encryption cfg) \<or> Key (Encryption cfg) = [] then Inr data
      else
        (case DecodeKeyFromString (Key (Encryption cfg)) of
           Inl e \<Rightarrow> Inl (Wrap ''failed to decode encryption key'' e)
         | Inr key \<Rightarrow>
             (case Decrypt data key of
                Inl e \<Rightarrow> Inr data
              | Inr decrypted \<Rightarrow> Inr decrypted)))"

subsection \<open>parseDataToEnvMap\<close>

text \<open>
  The loop over the archive entries. Copying every binding of \<open>fileEnv\<close> into
  \<open>envMap\<close> is \<open>envMap ++ fileEnv\<close>.
\<close>

fun merge_entries :: "FileEntry list \<Rightarrow> env_map \<Rightarrow> error + env_map" where
  "merge_entries [] envMap = Inr envMap"
| "merge_entries (entry # entries) envMap =
     (if \<not> HasSuffix (Path entry) ''.env'' \<and> \<not> HasPrefix (Path entry) ''.env''
      then merge_entries entries envMap
      else
        (case parseEnvFile (Data entry) of
           Inl e \<Rightarrow> Inl (Wrap (''failed to parse '' @ Path entry) e)
         | Inr fileEnv \<Rightarrow> merge_entries entries (envMap ++ fileEnv)))"

definition parseDataToEnvMap :: "tar_lib \<Rightarrow> bytes \<Rightarrow> Config \<Rightarrow> error + env_map" where
  "parseDataToEnvMap lib data cfg =
     (let files = GetEnvFiles cfg in
      if length files = 1 then parseEnvFile data
      else
        (case Extract lib data of
           Inl e \<Rightarrow> Inl (Wrap ''failed to extract archive'' e)
         | Inr entries \<Rightarrow> merge_entries entries Map.empty))"

subsection \<open>runPush\<close>

text \<open>
  What \<open>runPush\<close> takes from its surroundings: the outcome of loading the
  configuration file, the Git queries, the file system, the container library, the
  random source and the outcome of creating the storage client. Messages printed to
  the terminal are left out. The result is the error, if any, and the storage state.
\<close>

record world =
  config_Load :: "error + Config"
  IsGitRepository :: bool
  GetCurrentVersion :: "error + string"
  files_on_disk :: filesystem
  container :: tar_lib
  rand_Reader :: bytes
  storage_New :: "error option"

definition determine_tag :: "world \<Rightarrow> string \<Rightarrow> error + string" where
  "determine_tag w tagFlag =
     (if tagFlag \<noteq> [] then Inr tagFlag
      else if \<not> IsGitRepository w then Inl (Err ''not a git repository and no --tag specified'')
      else
        (case GetCurrentVersion w of
           Inl e \<Rightarrow> Inl (Wrap ''failed to determine Git version'' e)
         | Inr tag \<Rightarrow> Inr tag))"

definition runPush :: "'s storage \<Rightarrow> world \<Rightarrow> string \<Rightarrow> 's \<Rightarrow> error option \<times> 's" where
  "runPush store w tagFlag st =
     (case config_Load w of
        Inl e \<Rightarrow> (Some (Wrap ''failed to load config'' e), st)
      | Inr cfg \<Rightarrow>
     (case Validate cfg of
        Some e \<Rightarrow> (Some (Wrap ''invalid configuration'' e), st)
      | None \<Rightarrow>
     (case determine_tag w tagFlag of
        Inl e \<Rightarrow> (Some e, st)
      | Inr tag \<Rightarrow>
     (case loadEnvFiles (container w) (files_on_disk w) cfg of
        Inl e \<Rightarrow> (Some e, st)
      | Inr data \<Rightarrow>
     (case fst (prepareData data cfg (rand_Reader w)) of
        Inl e \<Rightarrow> (Some e, st)
      | Inr preparedData \<Rightarrow>
     (case storage_New w of
        Some e \<Rightarrow> (Some (Wrap ''failed to create storage client'' e), st)
      | None \<Rightarrow>
     (case Exists store st tag of
        Inl e \<Rightarrow> (Some (Wrap ''failed to check if tag exists'' e), st)
      | Inr exists \<Rightarrow>
     (case Upload store st tag preparedData of
        (Some e, st') \<Rightarrow> (Some (Wrap ''failed to upload'' e), st')
      | (None, st') \<Rightarrow> (None, st')))))))))"

text \<open>A configuration with encryption enabled and no key, for running push.\<close>

definition nokey_cfg :: Config where
  "nokey_cfg = \<lparr>Storage = \<lparr>Type = StorageTypeS3, Prefix = [], Bucket = ''b'', Region = ''r'',
                 AccountName = [], ContainerName = [], ProjectID = [], BucketName = []\<rparr>,
      Encryption = \<lparr>Enabled = True, Key = []\<rparr>,
      EnvFile = ''.env'', EnvFiles = []\<rparr>"

definition nokey_world :: world where
  "nokey_world = \<lparr>config_Load = Inr nokey_cfg, IsGitRepository = False,
      GetCurrentVersion = Inl (Err ''no git''),
      files_on_disk = [''.env'' \<mapsto> \<lparr>contents = [65, 61, 49], file_mode = 0x1A4\<rparr>],
      container = \<lparr>header_ok = (\<lambda>h. True), encode = (\<lambda>rs. []), decode = (\<lambda>b. Inr [])\<rparr>,
      rand_Reader = [], storage_New = None\<rparr>"

text \<open>A configuration with encryption off that names the three files.\<close>

definition three_cfg :: Config where
  "three_cfg =
     \<lparr>Storage = \<lparr>Type = StorageTypeS3, Prefix = [], Bucket = ''b'', Region = ''r'',
                 AccountName = [], ContainerName = [], ProjectID = [], BucketName = []\<rparr>,
      Encryption = \<lparr>Enabled = False, Key = []\<rparr>,
      EnvFile = [], EnvFiles = three_paths\<rparr>"

text \<open>The entries that \<open>parseDataToEnvMap\<close> parses.\<close>

definition is_env_entry :: "FileEntry \<Rightarrow> bool" where
  "is_env_entry e = (HasSuffix (Path e) ''.env'' \<or> HasPrefix (Path e) ''.env'')"

section \<open>Theorems\<close>

text \<open>
  C9. For every prefix and tag, BuildKey is the plain concatenation of prefix, tag and
  the suffix \<^verbatim>\<open>.env\<close> (for the empty prefix: tag and suffix), no separator is
  inserted, and the three documented examples hold.
\<close>

theorem BuildKey_concat:
  "BuildKey prefix tag = prefix @ tag @ ''.env''
   \<and> BuildKey [] tag = tag @ ''.env''
   \<and> BuildKey [] ''v1.0.0'' = ''v1.0.0.env''
   \<and> BuildKey ''envs/'' ''v1.0.0'' = ''envs/v1.0.0.env''
   \<and> BuildKey ''prefix'' ''test'' = ''prefixtest.env''"
  by (simp add: BuildKey_def)

subsection \<open>The differ\<close>

lemma range_map_Nil: "range_map m [] = []"
  by (simp add: range_map_def)

lemma range_map_Cons:
  "range_map m (k # ks) = (case m k of None \<Rightarrow> range_map m ks | Some v \<Rightarrow> (k, v) # range_map m ks)"
  by (simp add: range_map_def List.map_filter_simps split: option.splits)

lemma diff_new_range:
  "diff_new oldMap (range_map newMap ks) (added, changed) =
     ((\<lambda>k. if k \<in> set ks \<and> oldMap k = None \<and> newMap k \<noteq> None then newMap k else added k),
      (\<lambda>k. if k \<in> set ks \<and> oldMap k \<noteq> None \<and> newMap k \<noteq> None \<and> oldMap k \<noteq> newMap k
           then Some (the (oldMap k) @ '' -> '' @ the (newMap k)) else changed k))"
proof (induction ks arbitrary: added changed)
  case Nil
  then show ?case by (simp add: range_map_Nil)
next
  case (Cons k ks)
  show ?case
  proof (cases "newMap k")
    case None
    then show ?thesis
      by (auto simp: range_map_Cons Cons.IH fun_eq_iff)
  next
    case (Some nv)
    then show ?thesis
      by (cases "oldMap k") (auto simp: range_map_Cons Cons.IH fun_eq_iff)
  qed
qed

lemma diff_old_range:
  "diff_old newMap (range_map oldMap ks) removed =
     (\<lambda>k. if k \<in> set ks \<and> newMap k = None \<and> oldMap k \<noteq> None then oldMap k else removed k)"
proof (induction ks arbitrary: removed)
  case Nil
  then show ?case by (simp add: range_map_Nil)
next
  case (Cons k ks)
  show ?case
  proof (cases "oldMap k")
    case None
    then show ?thesis
      by (auto simp: range_map_Cons Cons.IH fun_eq_iff)
  next
    case (Some ov)
    then show ?thesis
      by (cases "newMap k") (auto simp: range_map_Cons Cons.IH fun_eq_iff)
  qed
qed

text \<open>
  C6. For every pair of maps, whatever order the two loops visit the keys in: a key only
  in \<open>newMap\<close> is added with its new value, a key only in \<open>oldMap\<close> is removed with
  its old value, a key in both with different values is changed and reported as
  \<^verbatim>\<open>old -> new\<close>, and a key in both with equal values is in none of the three results.
\<close>

theorem diffEnvMaps_spec:
  assumes "dom newMap \<subseteq> set order_new" and "dom oldMap \<subseteq> set order_old"
  shows "case diffEnvMaps order_new order_old oldMap newMap of (added, removed, changed) \<Rightarrow>
           (\<forall>k v. added k = Some v \<longleftrightarrow> newMap k = Some v \<and> oldMap k = None) \<and>
           (\<forall>k v. removed k = Some v \<longleftrightarrow> oldMap k = Some v \<and> newMap k = None) \<and>
           (\<forall>k c. changed k = Some c \<longleftrightarrow>
               (\<exists>ov nv. oldMap k = Some ov \<and> newMap k = Some nv \<and> ov \<noteq> nv
                         \<and> c = ov @ '' -> '' @ nv)) \<and>
           (\<forall>k v. oldMap k = Some v \<and> newMap k = Some v \<longrightarrow>
               added k = None \<and> removed k = None \<and> changed k = None)"
proof -
  have n: "\<And>k v. newMap k = Some v \<Longrightarrow> k \<in> set order_new"
    using assms(1) by auto
  have o: "\<And>k v. oldMap k = Some v \<Longrightarrow> k \<in> set order_old"
    using assms(2) by auto
  show ?thesis
    unfolding diffEnvMaps_def Let_def diff_new_range diff_old_range
    by (auto dest: n o)
qed


theorem diffEnvMaps_spec_witness:
  "dom [''B'' \<mapsto> ''2'', ''C'' \<mapsto> ''3''] \<subseteq> set [''C'', ''B''] \<and>
   dom [''A'' \<mapsto> ''1'', ''B'' \<mapsto> ''2''] \<subseteq> set [''A'', ''B''] \<and>
   (case diffEnvMaps [''C'', ''B''] [''A'', ''B'']
           [''A'' \<mapsto> ''1'', ''B'' \<mapsto> ''2''] [''B'' \<mapsto> ''2'', ''C'' \<mapsto> ''3''] of
      (added, removed, changed) \<Rightarrow>
        added ''C'' = Some ''3'' \<and> removed ''A'' = Some ''1'' \<and> changed ''B'' = None)"
proof -
  let ?old = "[''A'' \<mapsto> ''1'', ''B'' \<mapsto> ''2'']"
  let ?new = "[''B'' \<mapsto> ''2'', ''C'' \<mapsto> ''3'']"
  have h1: "dom ?new \<subseteq> set [''C'', ''B'']" by simp
  have h2: "dom ?old \<subseteq> set [''A'', ''B'']" by simp
  obtain a r c where d: "diffEnvMaps [''C'', ''B''] [''A'', ''B''] ?old ?new = (a, r, c)"
    by (cases "diffEnvMaps [''C'', ''B''] [''A'', ''B''] ?old ?new")
  from diffEnvMaps_spec [OF h1 h2] d
  have A: "\<forall>k v. a k = Some v \<longleftrightarrow> ?new k = Some v \<and> ?old k = None"
    and R: "\<forall>k v. r k = Some v \<longleftrightarrow> ?old k = Some v \<and> ?new k = None"
    and E: "\<forall>k v. ?old k = Some v \<and> ?new k = Some v \<longrightarrow> a k = None \<and> r k = None \<and> c k = None"
    by simp_all
  have "a ''C'' = Some ''3''" using A by simp
  moreover have "r ''A'' = Some ''1''" using R by simp
  moreover have "c ''B'' = None" using E [rule_format, of "''B''" "''2''"] by simp
  ultimately show ?thesis using h1 h2 d by simp
qed

subsection \<open>The env parser\<close>

declare scan_loop.simps [simp del] raw_lines.simps [simp del]

lemma tl_dropWhile_eq:
  "tl (dropWhile P t) = drop (Suc (length (takeWhile P t))) t"
  by (induction t) auto

lemma parse_line_binding:
  "parse_line tok m = (case line_binding tok of None \<Rightarrow> m | Some (k, v) \<Rightarrow> m(k \<mapsto> v))"
proof (cases "TrimSpace (string_of_bytes tok)")
  case Nil
  then show ?thesis by (simp add: parse_line_def line_binding_def)
next
  case (Cons c cs)
  then show ?thesis
    by (simp add: parse_line_def line_binding_def Let_def HasPrefix_def SplitN2_def tl_dropWhile_eq)
qed

lemma in_take_iff:
  "x \<in> set (take n xs) \<longleftrightarrow>
     length (takeWhile (\<lambda>b. b \<noteq> x) xs) < n \<and> length (takeWhile (\<lambda>b. b \<noteq> x) xs) < length xs"
proof (induction xs arbitrary: n)
  case Nil
  then show ?case by simp
next
  case (Cons a xs)
  then show ?case by (cases n) auto
qed

lemma takeWhile_full: "length (takeWhile P xs) = length xs \<Longrightarrow> takeWhile P xs = xs"
  by (induction xs) (auto split: if_splits)

lemma Scan_cases:
  "Scan rest =
     (if rest = [] then ScanDone
      else if MaxScanTokenSize \<le> length (takeWhile (\<lambda>b. b \<noteq> 10) rest) then ScanTooLong
      else Token (dropCR (takeWhile (\<lambda>b. b \<noteq> 10) rest))
                 (drop (Suc (length (takeWhile (\<lambda>b. b \<noteq> 10) rest))) rest))"
proof -
  let ?l = "takeWhile (\<lambda>b. b \<noteq> 10) rest"
  have le: "length ?l \<le> length rest" by (rule length_takeWhile_le)
  show ?thesis
  proof (cases "10 \<in> set (take MaxScanTokenSize rest)")
    case True
    then have "length ?l < MaxScanTokenSize" by (simp add: in_take_iff)
    with True show ?thesis
      by (simp add: Scan_def Let_def takeWhile_eq_take [symmetric])
  next
    case nin: False
    then have nin': "\<not> (length ?l < MaxScanTokenSize \<and> length ?l < length rest)"
      unfolding in_take_iff .
    show ?thesis
    proof (cases "MaxScanTokenSize \<le> length rest")
      case True
      with nin' le have "MaxScanTokenSize \<le> length ?l"
        by arith
      with nin True show ?thesis by (simp add: Scan_def)
    next
      case short: False
      with nin' le have "length ?l = length rest"
        by arith
      then have eq: "?l = rest" by (rule takeWhile_full)
      from nin short show ?thesis by (simp add: Scan_def eq)
    qed
  qed
qed

lemma raw_lines_Nil: "raw_lines [] = []"
  by (simp add: raw_lines.simps)

lemma raw_lines_ne:
  "data \<noteq> [] \<Longrightarrow>
   raw_lines data = takeWhile (\<lambda>b. b \<noteq> 10) data
                    # raw_lines (drop (Suc (length (takeWhile (\<lambda>b. b \<noteq> 10) data))) data)"
  by (subst raw_lines.simps) simp

lemma scan_loop_lines:
  "scan_loop rest m =
     (if \<forall>l \<in> set (raw_lines rest). length l < MaxScanTokenSize
      then Inr (fold (\<lambda>l m. case line_binding l of None \<Rightarrow> m | Some (k, v) \<Rightarrow> m(k \<mapsto> v))
                  (map dropCR (raw_lines rest)) m)
      else Inl (Err ''bufio.Scanner: token too long''))"
proof (induction rest m rule: scan_loop.induct)
  case (1 rest envMap)
  let ?l = "takeWhile (\<lambda>b. b \<noteq> 10) rest"
  show ?case
  proof (cases "rest = []")
    case True
    then show ?thesis
      by (subst scan_loop.simps) (simp add: Scan_cases raw_lines_Nil)
  next
    case ne: False
    show ?thesis
    proof (cases "MaxScanTokenSize \<le> length ?l")
      case True
      with ne show ?thesis
        by (subst scan_loop.simps) (simp add: Scan_cases raw_lines_ne)
    next
      case False
      with ne have S: "Scan rest = Token (dropCR ?l) (drop (Suc (length ?l)) rest)"
        by (simp add: Scan_cases)
      from False ne show ?thesis
        by (subst scan_loop.simps)
           (simp add: S "1.IH" [OF S, unfolded parse_line_binding] parse_line_binding raw_lines_ne)
    qed
  qed
qed

text \<open>
  C7 (as amended). For every input: when every line is shorter than
  \<^verbatim>\<open>MaxScanTokenSize\<close> (65536 bytes), the parser returns the map built from the lines
  in order, where a line whose trimmed text is empty or starts with \<^verbatim>\<open>#\<close> contributes
  nothing, a line with \<^verbatim>\<open>=\<close> is split at the first \<^verbatim>\<open>=\<close> with both sides trimmed
  before insertion, and a line without \<^verbatim>\<open>=\<close> is dropped; when some line is longer, the
  parser returns an error and no map.
\<close>

theorem parseEnvFile_lines:
  "parseEnvFile data =
     (if \<forall>l \<in> set (raw_lines data). length l < MaxScanTokenSize
      then Inr (env_of_lines (map dropCR (raw_lines data)))
      else Inl (Wrap ''failed to parse env file'' (Err ''bufio.Scanner: token too long'')))"
  by (simp add: parseEnvFile_def scan_loop_lines env_of_lines_def)

lemma Scan_no_newline:
  assumes "MaxScanTokenSize \<le> length data" and "10 \<notin> set data"
  shows "Scan data = ScanTooLong"
proof -
  from assms(2) have eq: "takeWhile (\<lambda>b. b \<noteq> 10) data = data"
    by (auto simp: takeWhile_eq_all_conv)
  from assms(1) show ?thesis
    by (auto simp: Scan_cases eq MaxScanTokenSize_def)
qed

text \<open>
  C7 as stated fails: a single line of 65536 bytes makes the parser return an error
  instead of a map.
\<close>

theorem parseEnvFile_long_line:
  "parseEnvFile (replicate 65536 0x61) =
     Inl (Wrap ''failed to parse env file'' (Err ''bufio.Scanner: token too long''))"
proof -
  have "MaxScanTokenSize \<le> length (replicate 65536 (0x61 :: byte))"
    by (simp only: length_replicate MaxScanTokenSize_def)
  moreover have "10 \<notin> set (replicate 65536 (0x61 :: byte))"
    by (simp only: set_replicate_conv_if) simp
  ultimately have "Scan (replicate 65536 0x61) = ScanTooLong"
    by (rule Scan_no_newline)
  then show ?thesis
    by (simp only: parseEnvFile_def scan_loop.simps [of "replicate 65536 0x61"]
          scan_step.case sum.case)
qed

lemma sample_env_lines:
  "raw_lines sample_env =
     [[35, 32, 110, 111, 116, 101], [32, 32, 65, 32, 61, 32, 49, 32, 13],
      [66, 61, 120, 61, 121], [32, 35, 67, 61, 51], [110, 111, 101, 113]]"
  by (simp add: sample_env_def bytes_of_string_def raw_lines.simps)

lemma sample_env_bindings:
  "line_binding [35, 32, 110, 111, 116, 101] = None"
  "line_binding [32, 32, 65, 32, 61, 32, 49, 32] = Some (''A'', ''1'')"
  "line_binding [66, 61, 120, 61, 121] = Some (''B'', ''x=y'')"
  "line_binding [32, 35, 67, 61, 51] = None"
  "line_binding [110, 111, 101, 113] = None"
  by code_simp+

theorem parseEnvFile_lines_witness:
  "list_all (\<lambda>l. length l < MaxScanTokenSize) (raw_lines sample_env)
   \<and> parseEnvFile sample_env = Inr [''A'' \<mapsto> ''1'', ''B'' \<mapsto> ''x=y'']"
proof -
  have H: "\<forall>l \<in> set (raw_lines sample_env). length l < MaxScanTokenSize"
    by (simp add: sample_env_lines MaxScanTokenSize_def)
  have E: "env_of_lines (map dropCR (raw_lines sample_env)) = [''A'' \<mapsto> ''1'', ''B'' \<mapsto> ''x=y'']"
    by (simp add: sample_env_lines dropCR_def env_of_lines_def sample_env_bindings)
  show ?thesis
    using parseEnvFile_lines [of sample_env] H E by (simp add: list_all_iff)
qed


subsection \<open>The pipeline: keys and fallback\<close>

text \<open>
  C4. When encryption is enabled, a key is configured and decodes, and \<open>Decrypt\<close>
  fails on the downloaded bytes, \<open>processData\<close> (called by pull and by diff) returns
  the downloaded bytes unchanged and no error.
\<close>

theorem processData_fallback:
  assumes "Enabled (Encryption cfg)" and "Key (Encryption cfg) \<noteq> []"
    and "DecodeKeyFromString (Key (Encryption cfg)) = Inr key"
    and "Decrypt data key = Inl e"
  shows "processData data cfg = Inr data"
  using assms by (simp add: processData_def)

lemma hex_zero_key:
  "DecodeKeyFromString (replicate 64 (CHR ''0'')) = Inr (replicate 32 0)"
  by (simp add: DecodeKeyFromString_def fromHexChar_def KeySize_def eval_nat_numeral)

lemma Decrypt_short:
  "length ciphertext < gcmNonceSize \<Longrightarrow> length key = 32 \<Longrightarrow>
   Decrypt ciphertext key = Inl (Err ''ciphertext too short'')"
  by (simp add: Decrypt_def NewCipher_def)

theorem processData_fallback_witness:
  "processData [1, 2]
     \<lparr>Storage = \<lparr>Type = StorageTypeS3, Prefix = [], Bucket = ''b'', Region = ''r'',
                 AccountName = [], ContainerName = [], ProjectID = [], BucketName = []\<rparr>,
      Encryption = \<lparr>Enabled = True, Key = replicate 64 (CHR ''0'')\<rparr>,
      EnvFile = ''.env'', EnvFiles = []\<rparr>
   = Inr [1, 2]"
proof -
  have d: "Decrypt [1, 2] (replicate 32 0) = Inl (Err ''ciphertext too short'')"
    by (rule Decrypt_short) (simp_all add: gcmNonceSize_def)
  show ?thesis
    by (rule processData_fallback [where key = "replicate 32 0", OF _ _ _ d])
       (simp_all add: hex_zero_key)
qed

text \<open>
  C10. With encryption enabled and an empty key: \<open>prepareData\<close> fails, and so push
  returns an error with the storage unchanged, nothing being uploaded; \<open>processData\<close>
  returns the downloaded bytes unchanged, without decrypting and without error.
\<close>

theorem missing_key_asymmetry:
  assumes "Enabled (Encryption cfg)" and "Key (Encryption cfg) = []"
  shows "prepareData data cfg rnd
           = (Inl (Err ''encryption is enabled but no key is configured''), rnd)
       \<and> (config_Load w = Inr cfg \<longrightarrow> (\<exists>e. runPush store w tagFlag st = (Some e, st)))
       \<and> (config_Load w = Inr cfg \<and> Validate cfg = None \<and> determine_tag w tagFlag = Inr tag
            \<and> loadEnvFiles (container w) (files_on_disk w) cfg = Inr loaded
          \<longrightarrow> runPush store w tagFlag st
                = (Some (Err ''encryption is enabled but no key is configured''), st))
       \<and> processData data cfg = Inr data"
proof -
  have p: "\<And>d r. prepareData d cfg r
             = (Inl (Err ''encryption is enabled but no key is configured''), r)"
    using assms by (simp add: prepareData_def)
  have a: "config_Load w = Inr cfg \<longrightarrow> (\<exists>e. runPush store w tagFlag st = (Some e, st))"
    by (auto simp: runPush_def p split: sum.splits option.splits)
  have b: "config_Load w = Inr cfg \<and> Validate cfg = None \<and> determine_tag w tagFlag = Inr tag
            \<and> loadEnvFiles (container w) (files_on_disk w) cfg = Inr loaded
          \<longrightarrow> runPush store w tagFlag st
                = (Some (Err ''encryption is enabled but no key is configured''), st)"
    by (simp add: runPush_def p)
  have c: "processData data cfg = Inr data"
    using assms by (simp add: processData_def)
  from p a b c show ?thesis by blast
qed

theorem missing_key_asymmetry_witness:
  "Enabled (Encryption nokey_cfg) \<and> Key (Encryption nokey_cfg) = []
   \<and> runPush mock_storage nokey_world ''v1'' NewMockStorage
       = (Some (Err ''encryption is enabled but no key is configured''), NewMockStorage)
   \<and> processData [65, 61, 49] nokey_cfg = Inr [65, 61, 49]"
proof -
  have h1: "Enabled (Encryption nokey_cfg)" and h2: "Key (Encryption nokey_cfg) = []"
    by (simp_all add: nokey_cfg_def)
  have l: "loadEnvFiles (container nokey_world) (files_on_disk nokey_world) nokey_cfg = Inr [65, 61, 49]"
    by (simp add: loadEnvFiles_def nokey_world_def nokey_cfg_def GetEnvFiles_def ReadFile_def)
  have pre: "config_Load nokey_world = Inr nokey_cfg \<and> Validate nokey_cfg = None
             \<and> determine_tag nokey_world ''v1'' = Inr ''v1''
             \<and> loadEnvFiles (container nokey_world) (files_on_disk nokey_world) nokey_cfg = Inr [65, 61, 49]"
    using l by (simp add: nokey_world_def nokey_cfg_def Validate_def determine_tag_def)
  from missing_key_asymmetry [OF h1 h2, of "[65, 61, 49]" "[]" nokey_world mock_storage "''v1''"
         NewMockStorage "''v1''" "[65, 61, 49]"] pre h1 h2
  show ?thesis by simp
qed

subsection \<open>The cryptor\<close>

declare counterCrypt.simps [simp del] ghash_blocks.simps [simp del]

lemma length_bytes_of_block: "length (bytes_of_block w) = 16"
  by (simp add: bytes_of_block_def)

lemma map2_xor_cancel:
  fixes a k :: bytes
  shows "length a \<le> length k \<Longrightarrow> map2 (XOR) (map2 (XOR) a k) k = a"
proof (induction a arbitrary: k)
  case Nil
  then show ?case by simp
next
  case (Cons x xs)
  then show ?case by (cases k) (simp_all add: xor.assoc)
qed

lemma counterCrypt_Nil: "counterCrypt E c [] = []"
  by (simp add: counterCrypt.simps)

lemma counterCrypt_ne:
  "input \<noteq> [] \<Longrightarrow>
   counterCrypt E c input =
     map2 (XOR) (take 16 input) (bytes_of_block (E c))
     @ counterCrypt E (gcmInc32 c) (drop 16 input)"
  by (subst counterCrypt.simps) simp

lemma counterCrypt_length: "length (counterCrypt E c p) = length p"
proof (induction E c p rule: counterCrypt.induct)
  case (1 E c p)
  show ?case
  proof (cases "p = []")
    case True
    then show ?thesis by (simp add: counterCrypt_Nil)
  next
    case False
    with 1 show ?thesis
      by (simp add: counterCrypt_ne length_bytes_of_block)
  qed
qed

lemma counterCrypt_involutive: "counterCrypt E c (counterCrypt E c p) = p"
proof (induction E c p rule: counterCrypt.induct)
  case (1 E c p)
  show ?case
  proof (cases "p = []")
    case True
    then show ?thesis by (simp add: counterCrypt_Nil)
  next
    case False
    let ?ks = "bytes_of_block (E c)"
    let ?A = "map2 (XOR) (take 16 p) ?ks"
    let ?B = "counterCrypt E (gcmInc32 c) (drop 16 p)"
    have eq: "counterCrypt E c p = ?A @ ?B" using False by (rule counterCrypt_ne)
    have lenA: "length ?A = min (length p) 16" by (simp add: length_bytes_of_block)
    have lenB: "length ?B = length p - 16" by (simp add: counterCrypt_length)
    have ne: "?A @ ?B \<noteq> []" using False lenA by (cases p) auto
    have tk: "take 16 (?A @ ?B) = ?A" using lenA lenB by (cases "16 \<le> length p") auto
    have dr: "drop 16 (?A @ ?B) = ?B" using lenA lenB by (cases "16 \<le> length p") auto
    have A: "map2 (XOR) ?A ?ks = take 16 p"
      by (rule map2_xor_cancel) (simp add: length_bytes_of_block)
    have "counterCrypt E c (?A @ ?B)
          = map2 (XOR) (take 16 (?A @ ?B)) ?ks @ counterCrypt E (gcmInc32 c) (drop 16 (?A @ ?B))"
      using ne by (rule counterCrypt_ne)
    also have "\<dots> = take 16 p @ drop 16 p"
      using "1.IH" [OF False] by (simp only: tk dr A)
    finally show ?thesis by (simp add: eq)
  qed
qed

lemma gcm_stream_involutive: "gcm_stream block nonce (gcm_stream block nonce p) = p"
  by (simp add: gcm_stream_def counterCrypt_involutive)

lemma gcm_stream_length: "length (gcm_stream block nonce p) = length p"
  by (simp add: gcm_stream_def counterCrypt_length)

lemma gcm_tag_length: "length (gcm_tag block nonce ct) = 16"
  by (simp add: gcm_tag_def gcm_auth_def length_bytes_of_block)

lemma Seal_eq:
  "length nonce = gcmNonceSize \<Longrightarrow>
   Seal (block_Encrypt block) dst nonce p =
     (if gcmMaxPlaintext < length p
      then Inl (Panic ''crypto/cipher: message too large for GCM'')
      else Inr (dst @ gcm_stream block nonce p @ gcm_tag block nonce (gcm_stream block nonce p)))"
  by (simp add: Seal_def Let_def gcm_stream_def gcm_tag_def)

lemma Open_eq:
  "length nonce = gcmNonceSize \<Longrightarrow>
   Open (block_Encrypt block) nonce c =
     (if length c < gcmTagSize \<or> gcmMaxPlaintext + gcmTagSize < length c
      then Inl (Err ''cipher: message authentication failed'')
      else if gcm_tag block nonce (take (length c - gcmTagSize) c) \<noteq> drop (length c - gcmTagSize) c
      then Inl (Err ''cipher: message authentication failed'')
      else Inr (gcm_stream block nonce (take (length c - gcmTagSize) c)))"
  by (simp add: Open_def Let_def gcm_stream_def gcm_tag_def)

lemma Encrypt_eq:
  "Encrypt p key rnd =
     (case NewCipher key of
        Inl e \<Rightarrow> (Inl (Wrap ''failed to create cipher'' e), rnd)
      | Inr block \<Rightarrow>
          if length rnd < gcmNonceSize
          then (Inl (Wrap ''failed to generate nonce'' (Err ''unexpected EOF'')), [])
          else if gcmMaxPlaintext < length p
          then (Inl (Panic ''crypto/cipher: message too large for GCM''), drop gcmNonceSize rnd)
          else (Inr (take gcmNonceSize rnd
                     @ gcm_stream block (take gcmNonceSize rnd) p
                     @ gcm_tag block (take gcmNonceSize rnd)
                         (gcm_stream block (take gcmNonceSize rnd) p)),
                drop gcmNonceSize rnd))"
  by (simp add: Encrypt_def ReadFull_def Seal_eq split: sum.splits)

lemma Decrypt_eq:
  "Decrypt env key =
     (case NewCipher key of
        Inl e \<Rightarrow> Inl (Wrap ''failed to create cipher'' e)
      | Inr block \<Rightarrow>
          if length env < gcmNonceSize then Inl (Err ''ciphertext too short'')
          else if length env < gcmNonceSize + gcmTagSize
                  \<or> gcmNonceSize + gcmMaxPlaintext + gcmTagSize < length env
          then Inl (Wrap ''failed to decrypt'' (Err ''cipher: message authentication failed''))
          else if gcm_tag block (take gcmNonceSize env)
                    (take (length env - gcmNonceSize - gcmTagSize) (drop gcmNonceSize env))
                  \<noteq> drop (length env - gcmTagSize) env
          then Inl (Wrap ''failed to decrypt'' (Err ''cipher: message authentication failed''))
          else Inr (gcm_stream block (take gcmNonceSize env)
                      (take (length env - gcmNonceSize - gcmTagSize) (drop gcmNonceSize env))))"
proof (cases "NewCipher key")
  case (Inl e)
  then show ?thesis by (simp add: Decrypt_def)
next
  case (Inr block)
  show ?thesis
  proof (cases "length env < gcmNonceSize")
    case True
    with Inr show ?thesis by (simp add: Decrypt_def)
  next
    case False
    then have n: "length (take gcmNonceSize env) = gcmNonceSize" by simp
    have d: "gcmTagSize \<le> length env - gcmNonceSize \<Longrightarrow>
             drop (length env - gcmNonceSize - gcmTagSize) (drop gcmNonceSize env)
             = drop (length env - gcmTagSize) env"
      using False by (simp add: add.commute)
    show ?thesis
    proof (cases "gcmTagSize \<le> length env - gcmNonceSize")
      case True
      with Inr False show ?thesis
        by (auto simp: Decrypt_def Open_eq [OF n] d [OF True])
    next
      case short: False
      with Inr False show ?thesis
        by (auto simp: Decrypt_def Open_eq [OF n])
    qed
  qed
qed

lemma Decrypt_envelope:
  assumes "NewCipher key = Inr block" and "length nonce = gcmNonceSize"
    and "length p \<le> gcmMaxPlaintext"
  shows "Decrypt (nonce @ gcm_stream block nonce p @ gcm_tag block nonce (gcm_stream block nonce p)) key
         = Inr p"
  using assms
  by (simp add: Decrypt_eq gcm_stream_length gcm_tag_length gcm_stream_involutive
        gcmNonceSize_def gcmTagSize_def)




lemma NewCipher_KeySize: "length key = KeySize \<Longrightarrow> NewCipher key = Inr (KeyExpansion key)"
  by (simp add: NewCipher_def KeySize_def)

text \<open>
  C1. For every key of 32 bytes and every content, the empty one included: whenever
  \<open>Encrypt\<close> returns an envelope, \<open>Decrypt\<close> of that envelope under the same key
  returns the content. \<open>Encrypt\<close> does return an envelope when the random source
  delivers the 12 bytes of the nonce and the content is within the size GCM takes.
\<close>

theorem Decrypt_Encrypt:
  assumes "length key = KeySize"
  shows "(length content \<le> gcmMaxPlaintext \<and> gcmNonceSize \<le> length rnd
            \<longrightarrow> (\<exists>env. fst (Encrypt content key rnd) = Inr env))
       \<and> (\<forall>env. fst (Encrypt content key rnd) = Inr env \<longrightarrow> Decrypt env key = Inr content)"
proof -
  note c = NewCipher_KeySize [OF assms]
  have a: "length content \<le> gcmMaxPlaintext \<and> gcmNonceSize \<le> length rnd
            \<longrightarrow> (\<exists>env. fst (Encrypt content key rnd) = Inr env)"
    by (simp add: Encrypt_eq c)
  have b: "Decrypt env key = Inr content" if "fst (Encrypt content key rnd) = Inr env" for env
  proof -
    from that have ok: "\<not> length rnd < gcmNonceSize" "\<not> gcmMaxPlaintext < length content"
      and env: "env = take gcmNonceSize rnd
                     @ gcm_stream (KeyExpansion key) (take gcmNonceSize rnd) content
                     @ gcm_tag (KeyExpansion key) (take gcmNonceSize rnd)
                         (gcm_stream (KeyExpansion key) (take gcmNonceSize rnd) content)"
      by (auto simp: Encrypt_eq c split: if_splits)
    show ?thesis
      unfolding env using ok by (intro Decrypt_envelope [OF c]) simp_all
  qed
  from a b show ?thesis by blast
qed

theorem Decrypt_Encrypt_witness:
  "length (replicate 32 0 :: bytes) = KeySize
   \<and> (\<exists>env. fst (Encrypt [] (replicate 32 0) (replicate 12 7)) = Inr env
            \<and> Decrypt env (replicate 32 0) = Inr [])"
proof -
  have k: "length (replicate 32 0 :: bytes) = KeySize" by (simp add: KeySize_def)
  from Decrypt_Encrypt [OF k, of "[]" "replicate 12 7"] k
  show ?thesis by (auto simp: gcmNonceSize_def gcmMaxPlaintext_def)
qed










subsection \<open>The archiver\<close>

declare plain_decode.simps [simp del]

lemma sint_of_nat_small: "n < 2 ^ 63 \<Longrightarrow> sint (of_nat n :: 64 word) = int n"
  by (simp add: signed_of_nat signed_take_bit_int_eq_self)

lemma unat_of_nat_small: "n < 2 ^ 63 \<Longrightarrow> unat (of_nat n :: 64 word) = n"
  by (simp add: unat_of_nat)

lemma ucast_mode: "(ucast (ucast (m :: 32 word) :: 64 word) :: 32 word) = m"
  by (rule ucast_up_ucast_id) (simp add: is_up)

text \<open>The record \<open>Create\<close> writes for a file, and the entry \<open>Extract\<close> makes of it.\<close>

lemma create_loop_records:
  assumes "\<forall>p \<in> set paths. \<exists>f. fs p = Some f \<and> length (contents f) < 2 ^ 63
             \<and> header_ok lib \<lparr>hdr_Name = p, hdr_Mode = ucast (file_mode f),
                                hdr_Size = of_nat (length (contents f))\<rparr>"
    and "\<not> missing_bytes w"
  shows "create_loop lib fs paths w =
           Inr (w @ map (\<lambda>p. (\<lparr>hdr_Name = p, hdr_Mode = ucast (file_mode (the (fs p))),
                                  hdr_Size = of_nat (length (contents (the (fs p))))\<rparr>,
                                contents (the (fs p)))) paths)
         \<and> \<not> missing_bytes (w @ map (\<lambda>p. (\<lparr>hdr_Name = p, hdr_Mode = ucast (file_mode (the (fs p))),
                                  hdr_Size = of_nat (length (contents (the (fs p))))\<rparr>,
                                contents (the (fs p)))) paths)"
  using assms
proof (induction paths arbitrary: w)
  case Nil
  then show ?case by simp
next
  case (Cons p ps)
  from Cons.prems(1) obtain f where f: "fs p = Some f" and len: "length (contents f) < 2 ^ 63"
    and ok: "header_ok lib \<lparr>hdr_Name = p, hdr_Mode = ucast (file_mode f),
                             hdr_Size = of_nat (length (contents f))\<rparr>"
    by auto
  let ?h = "\<lparr>hdr_Name = p, hdr_Mode = ucast (file_mode f), hdr_Size = of_nat (length (contents f))\<rparr>"
  let ?w = "w @ [(?h, contents f)]"
  have wh: "WriteHeader lib w ?h = Inr (w @ [(?h, [])])"
    using Cons.prems(2) ok by (simp add: WriteHeader_def)
  have wr: "tar_Write (w @ [(?h, [])]) (contents f) = Inr ?w"
    using len by (simp add: tar_Write_def sint_of_nat_small)
  have nm: "\<not> missing_bytes ?w"
    using len by (simp add: missing_bytes_def sint_of_nat_small)
  have rest: "\<forall>p \<in> set ps. \<exists>f. fs p = Some f \<and> length (contents f) < 2 ^ 63
             \<and> header_ok lib \<lparr>hdr_Name = p, hdr_Mode = ucast (file_mode f),
                                hdr_Size = of_nat (length (contents f))\<rparr>"
    using Cons.prems(1) by simp
  from Cons.IH [OF rest nm] show ?case
    by (simp add: f ReadFile_def Stat_def wh wr)
qed

lemma extract_loop_records:
  assumes "\<forall>p \<in> set paths. \<exists>f. fs p = Some f \<and> length (contents f) < 2 ^ 63"
  shows "extract_loop (map (\<lambda>p. (\<lparr>hdr_Name = p, hdr_Mode = ucast (file_mode (the (fs p))),
                                  hdr_Size = of_nat (length (contents (the (fs p))))\<rparr>,
                                contents (the (fs p)))) paths) entries
         = Inr (entries @ map (\<lambda>p. \<lparr>Path = p, Data = contents (the (fs p)),
                                       Mode = file_mode (the (fs p))\<rparr>) paths)"
  using assms
proof (induction paths arbitrary: entries)
  case Nil
  then show ?case by simp
next
  case (Cons p ps)
  from Cons.prems obtain f where f: "fs p = Some f" and len: "length (contents f) < 2 ^ 63"
    by auto
  have rest: "\<forall>p \<in> set ps. \<exists>f. fs p = Some f \<and> length (contents f) < 2 ^ 63"
    using Cons.prems by simp
  show ?case
    using len by (simp add: f Cons.IH [OF rest] sint_of_nat_small unat_of_nat_small ucast_mode)
qed

text \<open>The container reads back what it wrote.\<close>

lemma char_of_unat_of_char: "char_of (unat (of_char c :: byte)) = c"
proof -
  have "(of_char c :: byte) = of_nat (of_char c)" by (simp only: of_nat_of_char)
  then have "unat (of_char c :: byte) = of_char c mod 2 ^ LENGTH(8)"
    by (simp only: unat_of_nat)
  then show ?thesis by simp
qed

lemma dec_name_enc_name: "dec_name (enc_name s @ after) = Some (s, after)"
proof (induction s)
  case Nil
  show ?case by (cases after) (simp_all add: enc_name_def)
next
  case (Cons c s)
  have "enc_name (c # s) @ after = 1 # of_char c # (enc_name s @ after)"
    by (simp add: enc_name_def)
  with Cons show ?case by (simp add: char_of_unat_of_char)
qed

lemma length_be_bytes: "length (be_bytes k x) = k"
  by (induction k arbitrary: x) simp_all

lemma be_value_snoc: "be_value (bs @ [b]) = 256 * be_value bs + unat b"
  by (simp add: be_value_def)

lemma be_value_be_bytes: "x < 256 ^ k \<Longrightarrow> be_value (be_bytes k x) = x"
proof (induction k arbitrary: x)
  case 0
  then show ?case by (simp add: be_value_def)
next
  case (Suc k)
  then have "x div 256 < 256 ^ k" by (simp add: less_mult_imp_div_less mult.commute)
  then have "be_value (be_bytes k (x div 256)) = x div 256" by (rule Suc.IH)
  moreover have "unat (of_nat (x mod 256) :: byte) = x mod 256"
    by (simp add: unat_of_nat)
  ultimately show ?case by (simp add: be_value_snoc)
qed

lemma be_value_word64: "be_value (be_bytes 8 (unat (w :: 64 word))) = unat w"
proof -
  have "unat w < 2 ^ LENGTH(64)" by (rule unsigned_less)
  then have "unat w < 256 ^ 8" by simp
  then show ?thesis by (rule be_value_be_bytes)
qed

lemma plain_decode_Nil: "plain_decode [] = Inr []"
  by (simp add: plain_decode.simps)

lemma plain_decode_step:
  assumes "dec_name bs = Some (name, rest)" and "bs \<noteq> []" and "16 \<le> length rest"
    and "be_value (take 8 (drop 8 rest)) \<le> length rest - 16"
  shows "plain_decode bs
         = (case plain_decode (drop (be_value (take 8 (drop 8 rest))) (drop 16 rest)) of
              Inl e \<Rightarrow> Inl e
            | Inr rs \<Rightarrow>
                Inr ((\<lparr>hdr_Name = name, hdr_Mode = of_nat (be_value (take 8 rest)),
                        hdr_Size = of_nat (be_value (take 8 (drop 8 rest)))\<rparr>,
                      take (be_value (take 8 (drop 8 rest))) (drop 16 rest)) # rs))"
  using assms by (subst plain_decode.simps) (simp add: Let_def not_less)

lemma plain_decode_record:
  assumes "unat (hdr_Size h) = length d"
  shows "plain_decode (plain_record (h, d) @ after)
         = (case plain_decode after of Inl e \<Rightarrow> Inl e | Inr rs \<Rightarrow> Inr ((h, d) # rs))"
proof -
  let ?M = "be_bytes 8 (unat (hdr_Mode h))" and ?S = "be_bytes 8 (unat (hdr_Size h))"
  define rest where "rest = ?M @ ?S @ d @ after"
  have bs: "plain_record (h, d) @ after = enc_name (hdr_Name h) @ rest"
    by (simp add: plain_record_def rest_def)
  have ne: "enc_name (hdr_Name h) @ rest \<noteq> []" by (simp add: enc_name_def)
  have dn: "dec_name (enc_name (hdr_Name h) @ rest) = Some (hdr_Name h, rest)"
    by (rule dec_name_enc_name)
  have t1: "take 8 rest = ?M" by (simp add: rest_def length_be_bytes)
  have t2: "take 8 (drop 8 rest) = ?S" by (simp add: rest_def length_be_bytes)
  have d16: "drop 16 rest = d @ after" by (simp add: rest_def length_be_bytes)
  have lr: "length rest = 16 + length d + length after" by (simp add: rest_def length_be_bytes)
  have sz: "be_value (take 8 (drop 8 rest)) = length d"
    unfolding t2 using be_value_word64 [of "hdr_Size h"] assms by simp
  have len: "16 \<le> length rest" using lr by simp
  have bd: "be_value (take 8 (drop 8 rest)) \<le> length rest - 16" using lr sz by simp
  have md: "(of_nat (be_value (take 8 rest)) :: 64 word) = hdr_Mode h"
    unfolding t1 by (simp add: be_value_word64)
  have sw: "(of_nat (length d) :: 64 word) = hdr_Size h" using assms [symmetric] by simp
  have h: "\<lparr>hdr_Name = hdr_Name h, hdr_Mode = hdr_Mode h, hdr_Size = hdr_Size h\<rparr> = h"
    by simp
  have dd: "drop (length d) (drop 16 rest) = after" and td: "take (length d) (drop 16 rest) = d"
    unfolding d16 by simp_all
  show ?thesis
    unfolding bs plain_decode_step [OF dn ne len bd] sz md sw h dd td ..
qed

lemma plain_decode_encode:
  "\<forall>r \<in> set rs. unat (hdr_Size (fst r)) = length (snd r) \<Longrightarrow>
   decode plain_container (encode plain_container rs) = Inr rs"
proof (induction rs)
  case Nil
  then show ?case by (simp add: plain_container_def plain_decode_Nil)
next
  case (Cons r rs)
  obtain h d where r: "r = (h, d)" by (cases r)
  from Cons.prems r have s: "unat (hdr_Size h) = length d" by simp
  from Cons have ih: "plain_decode (concat (map plain_record rs)) = Inr rs"
    by (simp add: plain_container_def)
  show ?case
    by (simp add: plain_container_def r plain_decode_record [OF s] ih)
qed

text \<open>
  For any container library: when the library accepts the headers and reads back the
  records \<open>Create\<close> wrote, \<open>Extract\<close> returns the files.
\<close>

lemma Extract_Create_lib:
  assumes "\<forall>p \<in> set paths. \<exists>f. fs p = Some f \<and> length (contents f) < 2 ^ 63
             \<and> header_ok lib \<lparr>hdr_Name = p, hdr_Mode = ucast (file_mode f),
                                hdr_Size = of_nat (length (contents f))\<rparr>"
    and "\<forall>w. create_loop lib fs paths [] = Inr w \<longrightarrow> decode lib (encode lib w) = Inr w"
  shows "\<exists>blob. Create lib fs paths = Inr blob
           \<and> Extract lib blob
               = Inr (map (\<lambda>p. \<lparr>Path = p, Data = contents (the (fs p)),
                                   Mode = file_mode (the (fs p))\<rparr>) paths)"
proof -
  let ?rs = "map (\<lambda>p. (\<lparr>hdr_Name = p, hdr_Mode = ucast (file_mode (the (fs p))),
                          hdr_Size = of_nat (length (contents (the (fs p))))\<rparr>,
                        contents (the (fs p)))) paths"
  have nm: "\<not> missing_bytes []" by (simp add: missing_bytes_def)
  from create_loop_records [OF assms(1) nm]
  have cl: "create_loop lib fs paths [] = Inr ?rs" and cm: "\<not> missing_bytes ?rs" by simp_all
  from assms(2) cl have rt: "decode lib (encode lib ?rs) = Inr ?rs" by blast
  have c: "Create lib fs paths = Inr (encode lib ?rs)"
    using cm by (simp add: Create_def cl tar_Close_def)
  have r: "\<forall>p \<in> set paths. \<exists>f. fs p = Some f \<and> length (contents f) < 2 ^ 63"
    using assms(1) by blast
  have "Extract lib (encode lib ?rs)
          = Inr (map (\<lambda>p. \<lparr>Path = p, Data = contents (the (fs p)),
                             Mode = file_mode (the (fs p))\<rparr>) paths)"
    by (simp add: Extract_def rt extract_loop_records [OF r])
  with c show ?thesis by blast
qed

text \<open>
  C2. For every list of paths that can be read (no two need differ), with contents
  shorter than \<open>2 ^ 63\<close> bytes as every Go slice is: \<open>Create\<close> returns a blob, and
  \<open>Extract\<close> of that blob returns one entry per path, in the order given, with the
  path as it was passed and the content and the mode of the file.
\<close>

theorem Extract_Create:
  assumes "\<forall>p \<in> set paths. \<exists>f. fs p = Some f \<and> length (contents f) < 2 ^ 63"
  shows "\<exists>blob. Create plain_container fs paths = Inr blob
           \<and> Extract plain_container blob
               = Inr (map (\<lambda>p. \<lparr>Path = p, Data = contents (the (fs p)),
                                   Mode = file_mode (the (fs p))\<rparr>) paths)"
proof (rule Extract_Create_lib)
  show "\<forall>p \<in> set paths. \<exists>f. fs p = Some f \<and> length (contents f) < 2 ^ 63
          \<and> header_ok plain_container \<lparr>hdr_Name = p, hdr_Mode = ucast (file_mode f),
                                          hdr_Size = of_nat (length (contents f))\<rparr>"
    using assms by (simp add: plain_container_def)
  then have cl: "create_loop plain_container fs paths [] =
           Inr ([] @ map (\<lambda>p. (\<lparr>hdr_Name = p, hdr_Mode = ucast (file_mode (the (fs p))),
                                  hdr_Size = of_nat (length (contents (the (fs p))))\<rparr>,
                                contents (the (fs p)))) paths)"
    by (intro create_loop_records [THEN conjunct1]) (simp_all add: missing_bytes_def)
  show "\<forall>w. create_loop plain_container fs paths [] = Inr w
          \<longrightarrow> decode plain_container (encode plain_container w) = Inr w"
  proof (intro allI impI)
    fix w
    assume "create_loop plain_container fs paths [] = Inr w"
    with cl have w: "w = map (\<lambda>p. (\<lparr>hdr_Name = p, hdr_Mode = ucast (file_mode (the (fs p))),
                                  hdr_Size = of_nat (length (contents (the (fs p))))\<rparr>,
                                contents (the (fs p)))) paths"
      by simp
    have "\<forall>r \<in> set w. unat (hdr_Size (fst r)) = length (snd r)"
      unfolding w using assms by (auto simp: unat_of_nat_small)
    then show "decode plain_container (encode plain_container w) = Inr w"
      by (rule plain_decode_encode)
  qed
qed

theorem Extract_Create_witness:
  "\<exists>blob. Create plain_container three_files three_paths = Inr blob
      \<and> Extract plain_container blob =
          Inr [\<lparr>Path = ''a.env'', Data = [65, 61, 49, 10, 66, 61, 50], Mode = 0x180\<rparr>,
      \<lparr>Path = ''b.json'', Data = [123, 125], Mode = 0x1a4\<rparr>,
      \<lparr>Path = ''.env.local'', Data = [65, 61, 51], Mode = 0x1a4\<rparr>]"
proof -
  have h1: "\<forall>p \<in> set three_paths. \<exists>f. three_files p = Some f \<and> length (contents f) < 2 ^ 63"
    by (simp add: three_paths_def three_files_def)
  have m: "map (\<lambda>p. \<lparr>Path = p, Data = contents (the (three_files p)),
                        Mode = file_mode (the (three_files p))\<rparr>) three_paths
           = [\<lparr>Path = ''a.env'', Data = [65, 61, 49, 10, 66, 61, 50], Mode = 0x180\<rparr>,
      \<lparr>Path = ''b.json'', Data = [123, 125], Mode = 0x1a4\<rparr>,
      \<lparr>Path = ''.env.local'', Data = [65, 61, 51], Mode = 0x1a4\<rparr>]"
    by (simp add: three_paths_def three_files_def)
  from Extract_Create [OF h1] show ?thesis by (simp only: m)
qed

text \<open>The archive of the three files.\<close>

lemma three_encoded:
  "encode plain_container
     [(\<lparr>hdr_Name = ''a.env'', hdr_Mode = 0x180, hdr_Size = 7\<rparr>, [65, 61, 49, 10, 66, 61, 50]),
      (\<lparr>hdr_Name = ''b.json'', hdr_Mode = 0x1a4, hdr_Size = 2\<rparr>, [123, 125]),
      (\<lparr>hdr_Name = ''.env.local'', hdr_Mode = 0x1a4, hdr_Size = 3\<rparr>, [65, 61, 51])]
   = three_blob"
  proof -
  have b: "\<And>x. be_bytes 8 x =
     [of_nat (x div 256 div 256 div 256 div 256 div 256 div 256 div 256 mod 256),
      of_nat (x div 256 div 256 div 256 div 256 div 256 div 256 mod 256),
      of_nat (x div 256 div 256 div 256 div 256 div 256 mod 256),
      of_nat (x div 256 div 256 div 256 div 256 mod 256),
      of_nat (x div 256 div 256 div 256 mod 256),
      of_nat (x div 256 div 256 mod 256),
      of_nat (x div 256 mod 256),
      of_nat (x mod 256)]"
  proof -
    fix x
    have e: "(8::nat) = Suc (Suc (Suc (Suc (Suc (Suc (Suc (Suc 0)))))))" by simp
    show "be_bytes 8 x =
     [of_nat (x div 256 div 256 div 256 div 256 div 256 div 256 div 256 mod 256),
      of_nat (x div 256 div 256 div 256 div 256 div 256 div 256 mod 256),
      of_nat (x div 256 div 256 div 256 div 256 div 256 mod 256),
      of_nat (x div 256 div 256 div 256 div 256 mod 256),
      of_nat (x div 256 div 256 div 256 mod 256),
      of_nat (x div 256 div 256 mod 256),
      of_nat (x div 256 mod 256),
      of_nat (x mod 256)]"
      unfolding e by (simp del: div_mult2_eq)
  qed
  show ?thesis
    by (simp add: plain_container_def plain_record_def enc_name_def b three_blob_def)
qed

lemma three_extracted:
  "Extract plain_container three_blob =
     Inr [\<lparr>Path = ''a.env'', Data = [65, 61, 49, 10, 66, 61, 50], Mode = 0x180\<rparr>,
      \<lparr>Path = ''b.json'', Data = [123, 125], Mode = 0x1a4\<rparr>,
      \<lparr>Path = ''.env.local'', Data = [65, 61, 51], Mode = 0x1a4\<rparr>]"
proof -
  have "decode plain_container three_blob =
     Inr [(\<lparr>hdr_Name = ''a.env'', hdr_Mode = 0x180, hdr_Size = 7\<rparr>, [65, 61, 49, 10, 66, 61, 50]),
      (\<lparr>hdr_Name = ''b.json'', hdr_Mode = 0x1a4, hdr_Size = 2\<rparr>, [123, 125]),
      (\<lparr>hdr_Name = ''.env.local'', hdr_Mode = 0x1a4, hdr_Size = 3\<rparr>, [65, 61, 51])]"
    unfolding three_encoded [symmetric] by (rule plain_decode_encode) simp
  then show ?thesis by (simp add: Extract_def)
qed

lemma parse_a_env: "parseEnvFile [65, 61, 49, 10, 66, 61, 50] = Inr [''A'' \<mapsto> ''1'', ''B'' \<mapsto> ''2'']"
proof -
  have l: "raw_lines [65, 61, 49, 10, 66, 61, 50] = [[65, 61, 49], [66, 61, 50]]"
    by (simp add: raw_lines.simps)
  have b: "line_binding [65, 61, 49] = Some (''A'', ''1'')" "line_binding [66, 61, 50] = Some (''B'', ''2'')"
    by code_simp+
  show ?thesis
    by (simp add: parseEnvFile_def scan_loop_lines l b dropCR_def MaxScanTokenSize_def)
qed

lemma parse_env_local: "parseEnvFile [65, 61, 51] = Inr [''A'' \<mapsto> ''3'']"
proof -
  have l: "raw_lines [65, 61, 51] = [[65, 61, 51]]"
    by (simp add: raw_lines.simps)
  have b: "line_binding [65, 61, 51] = Some (''A'', ''3'')"
    by code_simp
  show ?thesis
    by (simp add: parseEnvFile_def scan_loop_lines l b dropCR_def MaxScanTokenSize_def)
qed

subsection \<open>Merging the env files of an archive\<close>

lemma merge_entries_fold:
  assumes "\<forall>e \<in> set entries. is_env_entry e \<longrightarrow> parseEnvFile (Data e) = Inr (envs e)"
  shows "merge_entries entries envMap
         = Inr (foldl (++) envMap (map envs (filter is_env_entry entries)))"
  using assms
proof (induction entries arbitrary: envMap)
  case Nil
  then show ?case by simp
next
  case (Cons e es)
  then show ?case by (simp add: is_env_entry_def)
qed

text \<open>
  C8 (as amended). For a configuration of several files and an archive that extracts:
  exactly the entries whose path ends in \<^verbatim>\<open>.env\<close> or starts with \<^verbatim>\<open>.env\<close> are parsed,
  and when each of them parses the result is their maps merged in the order of the
  archive, a later entry overwriting an earlier one on a common key; the other entries
  are skipped.
\<close>

theorem parseDataToEnvMap_merge:
  assumes "length (GetEnvFiles cfg) \<noteq> 1"
    and "Extract lib data = Inr entries"
    and "\<forall>e \<in> set entries. is_env_entry e \<longrightarrow> parseEnvFile (Data e) = Inr (envs e)"
  shows "parseDataToEnvMap lib data cfg
         = Inr (foldl (++) Map.empty (map envs (filter is_env_entry entries)))"
  using assms(1,2) by (simp add: parseDataToEnvMap_def merge_entries_fold [OF assms(3)])

lemma three_cfg_files: "GetEnvFiles three_cfg = three_paths"
  by (simp add: GetEnvFiles_def three_cfg_def three_paths_def)

text \<open>
  C8 as stated fails: the entry \<^verbatim>\<open>.env.local\<close> does not end in \<^verbatim>\<open>.env\<close>, yet it is
  parsed and its value for \<open>A\<close> overwrites the one of \<^verbatim>\<open>a.env\<close>.
\<close>

theorem parseDataToEnvMap_env_local:
  "\<not> HasSuffix ''.env.local'' ''.env''
   \<and> parseDataToEnvMap plain_container three_blob three_cfg
       = Inr [''A'' \<mapsto> ''1'', ''B'' \<mapsto> ''2'', ''A'' \<mapsto> ''3'']"
proof -
  have "\<not> HasSuffix ''.env.local'' ''.env''" by (simp add: HasSuffix_def)
  moreover have "parseDataToEnvMap plain_container three_blob three_cfg
       = Inr [''A'' \<mapsto> ''1'', ''B'' \<mapsto> ''2'', ''A'' \<mapsto> ''3'']"
    by (simp add: parseDataToEnvMap_def three_cfg_files three_paths_def [symmetric] three_extracted
          HasSuffix_def HasPrefix_def parse_a_env parse_env_local)
       (simp add: three_paths_def)
  ultimately show ?thesis by blast
qed

theorem parseDataToEnvMap_merge_witness:
  "length (GetEnvFiles three_cfg) \<noteq> 1
   \<and> parseDataToEnvMap plain_container three_blob three_cfg
       = Inr ([''A'' \<mapsto> ''1'', ''B'' \<mapsto> ''2''] ++ [''A'' \<mapsto> ''3''])"
proof -
  let ?envs = "\<lambda>e. if Path e = ''a.env'' then [''A'' \<mapsto> ''1'', ''B'' \<mapsto> ''2''] else [''A'' \<mapsto> ''3'']"
  have h1: "length (GetEnvFiles three_cfg) \<noteq> 1"
    by (simp add: three_cfg_files three_paths_def)
  have h3: "\<forall>e \<in> set [\<lparr>Path = ''a.env'', Data = [65, 61, 49, 10, 66, 61, 50], Mode = 0x180\<rparr>,
      \<lparr>Path = ''b.json'', Data = [123, 125], Mode = 0x1a4\<rparr>,
      \<lparr>Path = ''.env.local'', Data = [65, 61, 51], Mode = 0x1a4\<rparr>].
              is_env_entry e \<longrightarrow> parseEnvFile (Data e) = Inr (?envs e)"
    by (simp add: is_env_entry_def HasSuffix_def HasPrefix_def parse_a_env parse_env_local)
  from parseDataToEnvMap_merge [OF h1 three_extracted h3] h1
  show ?thesis by (simp add: is_env_entry_def HasSuffix_def HasPrefix_def)
qed

end
